theory Spec2Isabelle
  imports Complex_Main
begin

section \<open>JavaScript objects used as dictionaries\<close>

text \<open>
  The three caches of \<^verbatim>\<open>server/utils/lib.js\<close> (\<^verbatim>\<open>waiting_users\<close>,
  \<^verbatim>\<open>active_users\<close>, \<^verbatim>\<open>chats\<close>) and the message table of a chat are plain
  JavaScript objects. \<^verbatim>\<open>Object.keys\<close> and \<^verbatim>\<open>for ... in\<close> enumerate the own
  properties of such an object in a fixed order: array-index keys in ascending numeric
  order first, then every other string key in insertion order. An object is therefore
  held as the list of its own key/value pairs in enumeration order. What an object
  inherits is kept apart from this list: the members of \<^verbatim>\<open>Object.prototype\<close> (below),
  and, in the state, the object that an assignment under the key \<^verbatim>\<open>__proto__\<close> has made
  the prototype of a cache.
\<close>

type_synonym 'a obj = "(string \<times> 'a) list"

definition is_digit :: "char \<Rightarrow> bool" where
  "is_digit c = (48 \<le> (of_char c :: nat) \<and> (of_char c :: nat) \<le> 57)"

definition str_to_nat :: "string \<Rightarrow> nat" where
  "str_to_nat k = foldl (\<lambda>n c. 10 * n + ((of_char c :: nat) - 48)) 0 k"

definition is_array_index :: "string \<Rightarrow> bool" where
  "is_array_index k =
     (k \<noteq> [] \<and> list_all is_digit k \<and> (k = ''0'' \<or> hd k \<noteq> CHR ''0'') \<and>
      str_to_nat k < 4294967295)"

fun insert_index :: "string \<Rightarrow> 'a \<Rightarrow> 'a obj \<Rightarrow> 'a obj" where
  "insert_index k v [] = [(k, v)]"
| "insert_index k v ((k', v') # m) =
     (if is_array_index k' \<and> str_to_nat k' < str_to_nat k
      then (k', v') # insert_index k v m
      else (k, v) # (k', v') # m)"

text \<open>
  The own properties: the value of the own property \<open>k\<close>, if there is one, and the test
  \<^verbatim>\<open>Object.hasOwn(obj, k)\<close>. Neither looks at the prototype chain; a property read
  \<^verbatim>\<open>obj[k]\<close> of the source is \<open>obj_read\<close> below.
\<close>

definition obj_get :: "'a obj \<Rightarrow> string \<Rightarrow> 'a option" where
  "obj_get m k = map_of m k"

definition obj_has :: "'a obj \<Rightarrow> string \<Rightarrow> bool" where
  "obj_has m k = (map_of m k \<noteq> None)"

text \<open>
  Defining the own property \<open>k\<close>: an own property keeps its place and takes the new
  value, a new one goes to its place in the enumeration order.
\<close>

definition obj_define :: "string \<Rightarrow> 'a \<Rightarrow> 'a obj \<Rightarrow> 'a obj" where
  "obj_define k v m =
     (if obj_has m k then map (\<lambda>(k', v'). if k' = k then (k', v) else (k', v')) m
      else if is_array_index k then insert_index k v m
      else m @ [(k, v)])"

text \<open>
  The assignment \<^verbatim>\<open>obj[k] = v\<close> of an object \<open>v\<close>. It defines the own property \<open>k\<close>,
  with one exception: \<^verbatim>\<open>__proto__\<close> is an accessor inherited from
  \<^verbatim>\<open>Object.prototype\<close>, so unless the object has an own property of that name the
  assignment runs the inherited setter, which makes \<open>v\<close> the prototype of the object and
  defines nothing. \<open>sets_prototype\<close> tells when this happens; the new prototype is
  recorded in the state by the functions that assign.
\<close>

definition sets_prototype :: "'a obj \<Rightarrow> string \<Rightarrow> bool" where
  "sets_prototype m k = (k = ''__proto__'' \<and> \<not> obj_has m k)"

definition obj_set :: "string \<Rightarrow> 'a \<Rightarrow> 'a obj \<Rightarrow> 'a obj" where
  "obj_set k v m = (if sets_prototype m k then m else obj_define k v m)"

definition obj_delete :: "string \<Rightarrow> 'a obj \<Rightarrow> 'a obj" where
  "obj_delete k m = filter (\<lambda>(k', v'). k' \<noteq> k) m"

definition obj_keys :: "'a obj \<Rightarrow> string list" where
  "obj_keys m = map fst m"

text \<open>
  The names that every object inherits from \<^verbatim>\<open>Object.prototype\<close>. Each reads as a
  function, \<^verbatim>\<open>__proto__\<close> as the prototype object itself; none is enumerable.
\<close>

definition object_prototype_names :: "string list" where
  "object_prototype_names =
     [''constructor'', ''__defineGetter__'', ''__defineSetter__'', ''hasOwnProperty'',
      ''__lookupGetter__'', ''__lookupSetter__'', ''isPrototypeOf'', ''propertyIsEnumerable'',
      ''toString'', ''valueOf'', ''__proto__'', ''toLocaleString'']"

text \<open>
  What a property read \<^verbatim>\<open>obj[k]\<close> yields: \<^verbatim>\<open>undefined\<close> when no object of the chain
  has the property, the value of an own property, or a value found on the prototype
  chain. An inherited value is never an entry of the table; what the source does with
  one depends only on whether it is truthy, which is the flag. What \<^verbatim>\<open>Object.prototype\<close>
  holds is never \<^verbatim>\<open>null\<close> or \<^verbatim>\<open>undefined\<close>.
\<close>

datatype 'a property = Undefined | Own 'a | Inherited bool

fun truthy :: "'a property \<Rightarrow> bool" where
  "truthy Undefined = False"
| "truthy (Own v) = True"
| "truthy (Inherited b) = b"

text \<open>
  Reading \<open>k\<close> from \<^verbatim>\<open>Object.prototype\<close>. Besides the built-in members it can hold the
  property \<^verbatim>\<open>message\<close>, which \<^verbatim>\<open>editMessage\<close> creates when it is given the message id
  \<^verbatim>\<open>__proto__\<close> (see there); \<open>pm\<close> is its value, a string, if it has been created.
\<close>

definition object_prototype_get :: "string option \<Rightarrow> string \<Rightarrow> bool option" where
  "object_prototype_get pm k =
     (if k \<in> set object_prototype_names then Some True
      else if k = ''message'' then map_option (\<lambda>t. t \<noteq> []) pm
      else None)"

definition object_prototype_read :: "string option \<Rightarrow> string \<Rightarrow> 'a property" where
  "object_prototype_read pm k =
     (case object_prototype_get pm k of Some b \<Rightarrow> Inherited b | None \<Rightarrow> Undefined)"

text \<open>The read \<^verbatim>\<open>obj[k]\<close> of an object whose prototype is \<^verbatim>\<open>Object.prototype\<close>.\<close>

definition obj_read :: "string option \<Rightarrow> 'a obj \<Rightarrow> string \<Rightarrow> 'a property" where
  "obj_read pm m k =
     (case obj_get m k of Some v \<Rightarrow> Own v | None \<Rightarrow> object_prototype_read pm k)"

text \<open>
  The same read when the prototype of the object is \<open>p\<close>, if it has been replaced: the
  chain goes from the own properties to \<open>p\<close>, whose properties \<open>get\<close> answers, and from
  there to \<^verbatim>\<open>Object.prototype\<close>.
\<close>

definition obj_read_via ::
  "(string \<Rightarrow> bool option) option \<Rightarrow> string option \<Rightarrow> 'a obj \<Rightarrow> string \<Rightarrow> 'a property" where
  "obj_read_via p pm m k =
     (case obj_get m k of
        Some v \<Rightarrow> Own v
      | None \<Rightarrow>
          (case (case p of None \<Rightarrow> None | Some get \<Rightarrow> get k) of
             Some b \<Rightarrow> Inherited b
           | None \<Rightarrow> object_prototype_read pm k))"

text \<open>\<^verbatim>\<open>array.splice(i, 1)\<close>: drops position \<open>i\<close>, does nothing out of range.\<close>

definition splice1 :: "nat \<Rightarrow> 'a list \<Rightarrow> 'a list" where
  "splice1 i xs = take i xs @ drop (Suc i) xs"

section \<open>Data model\<close>

text \<open>
  The typedefs at the head of the file. A field that may be \<^verbatim>\<open>null\<close> or absent is an
  option. A socket connection is identified with its socket id. \<^verbatim>\<open>emailOrLoginId\<close>
  is computed from the two fields it depends on (the \<^verbatim>\<open>Proxy\<close> handler of
  \<^verbatim>\<open>addToWaitingList\<close>: \<^verbatim>\<open>target.email ?? target.loginId\<close>).
\<close>

record user =
  user_id :: "string option"
  email :: "string option"
  loginId :: string
  socketConnections :: "string list"
  socketIds :: "string list"
  currentChatId :: "string option"
  chatIds :: "string list"

datatype msg_type = Room_notification | Message_type

record msg =
  msg_id :: string
  message :: string
  senderId :: string
  time :: string
  mtype :: msg_type

record chat =
  chat_id :: string
  userIds :: "string list"
  messages :: "msg obj"
  createdAt :: string

definition emailOrLoginId :: "user \<Rightarrow> string" where
  "emailOrLoginId u = (case email u of Some e \<Rightarrow> e | None \<Rightarrow> loginId u)"

text \<open>
  The calls that the functions modelled here make on the mongoose models. Only what the
  caller passes is recorded; what the store answers is a parameter (\<open>store\<close> below).
  The second argument of \<open>Message_create\<close> is the \<^verbatim>\<open>sender.id\<close> handed to the
  \<^verbatim>\<open>ObjectId\<close> constructor, which is taken as part of the call.
\<close>

datatype store_call =
    ActiveUser_create "string option" string string
  | ActiveUser_deleteOne "string option"
  | Chat_create string "string list"
  | Chat_deleteOne string
  | Chat_updateOne_push string string
  | Message_create string "string option" msg_type string
  | Message_deleteMany "string list"
  | Message_updateOne_set string string

text \<open>
  The store collaborator. Each function is asked with the log of calls up to and
  including the one being answered: whether the promise rejects, the \<^verbatim>\<open>_id\<close> of a
  created user, and the \<^verbatim>\<open>optimizedVersion\<close> of a created chat or message (the
  model files that compute these projections are external). \<open>invalid_ObjectId\<close> tells
  for which strings the constructor \<^verbatim>\<open>new mongoose.Types.ObjectId(id)\<close> throws.
\<close>

record store =
  rejects :: "store_call list \<Rightarrow> bool"
  created_user_id :: "store_call list \<Rightarrow> string"
  chat_optimizedVersion :: "store_call list \<Rightarrow> chat"
  message_optimizedVersion :: "store_call list \<Rightarrow> msg"
  invalid_ObjectId :: "string \<Rightarrow> bool"

text \<open>
  What a function can throw: the rejection of a store call, a \<^verbatim>\<open>TypeError\<close> of the
  language, and the error of the \<^verbatim>\<open>ObjectId\<close> constructor.
\<close>

datatype error = StoreError | TypeError | BSONError

text \<open>
  User objects are shared by reference between the caches and the arguments of
  \<^verbatim>\<open>createChat\<close>, and are mutated in place, so they live in a heap and the caches hold
  references. \<open>joined\<close> records every \<^verbatim>\<open>socket.join(chatId)\<close>.

  The last three fields are the prototype chains. \<open>waiting_proto\<close> and \<open>active_proto\<close>
  are \<open>None\<close> while the prototype of the cache is \<^verbatim>\<open>Object.prototype\<close>, as it is when
  the module is loaded, and hold the user object that an assignment under \<^verbatim>\<open>__proto__\<close>
  has put in its place. \<open>prototype_message\<close> is the property \<^verbatim>\<open>message\<close> of
  \<^verbatim>\<open>Object.prototype\<close>, absent when the module is loaded. The chats cache and the
  message tables are written only under the strings of \<^verbatim>\<open>ObjectId\<close>s (24 hexadecimal
  digits), so their prototype stays \<^verbatim>\<open>Object.prototype\<close>.
\<close>

record state =
  heap :: "nat \<Rightarrow> user"
  next_ref :: nat
  waiting_users :: "nat obj"
  active_users :: "nat obj"
  chats :: "chat obj"
  store_log :: "store_call list"
  joined :: "(string \<times> string) list"
  waiting_proto :: "nat option"
  active_proto :: "nat option"
  prototype_message :: "string option"

text \<open>
  Awaiting a store call: the call is logged, and the first component tells whether the
  promise resolved.
\<close>

definition call_store :: "store \<Rightarrow> store_call \<Rightarrow> state \<Rightarrow> bool \<times> state" where
  "call_store db c s =
     (let log = store_log s @ [c] in (\<not> rejects db log, s\<lparr>store_log := log\<rparr>))"

section \<open>Session registry\<close>

datatype search =
    Search_string string
  | Search_object "string option" "string option" "string option"

text \<open>
  The test inside the two loops of \<^verbatim>\<open>getActiveUser\<close>. For an object the arguments
  are \<^verbatim>\<open>socketId\<close>, \<^verbatim>\<open>loginId\<close>, \<^verbatim>\<open>email\<close>; an absent or empty \<^verbatim>\<open>email\<close> or
  \<^verbatim>\<open>loginId\<close> is falsy and switches its test off.
\<close>

fun matches :: "search \<Rightarrow> user \<Rightarrow> bool" where
  "matches (Search_string x) u =
     (x \<in> set (socketIds u) \<or> email u = Some x \<or> loginId u = x)"
| "matches (Search_object sid lid em) u =
     ((case sid of Some x \<Rightarrow> x \<in> set (socketIds u) | None \<Rightarrow> False) \<or>
      (case em of Some e \<Rightarrow> e \<noteq> [] \<and> email u = Some e | None \<Rightarrow> False) \<or>
      (case lid of Some l \<Rightarrow> l \<noteq> [] \<and> loginId u = l | None \<Rightarrow> False))"

text \<open>
  The own enumerable properties of a user object, in the order in which
  \<^verbatim>\<open>addToWaitingList\<close> and \<^verbatim>\<open>createChat\<close> create them, and the truthiness of what
  reading the property \<open>k\<close> of a user object gives (\<open>None\<close> when the user object has no
  such property and the read goes on to \<^verbatim>\<open>Object.prototype\<close>). \<^verbatim>\<open>emailOrLoginId\<close> is
  answered by the \<^verbatim>\<open>get\<close> trap of the \<^verbatim>\<open>Proxy\<close>. Both matter only for a user object
  that has become the prototype of the active map; a user object loaded by \<^verbatim>\<open>init\<close>
  is given the same properties.
\<close>

definition user_keys :: "user \<Rightarrow> string list" where
  "user_keys u =
     [''loginId'', ''email'', ''socketConnections'', ''socketIds'', ''chatIds'', ''currentChatId''] @
     (case user_id u of None \<Rightarrow> [] | Some i \<Rightarrow> [''id''])"

definition user_get :: "user \<Rightarrow> string \<Rightarrow> bool option" where
  "user_get u k =
     (if k = ''emailOrLoginId'' then Some (emailOrLoginId u \<noteq> [])
      else if k = ''loginId'' then Some (loginId u \<noteq> [])
      else if k = ''email'' then Some (case email u of None \<Rightarrow> False | Some e \<Rightarrow> e \<noteq> [])
      else if k \<in> {''socketConnections'', ''socketIds'', ''chatIds''} then Some True
      else if k = ''currentChatId''
        then Some (case currentChatId u of None \<Rightarrow> False | Some c \<Rightarrow> c \<noteq> [])
      else if k = ''id'' then map_option (\<lambda>i. i \<noteq> []) (user_id u)
      else None)"

text \<open>The read \<^verbatim>\<open>active_users[k]\<close>: own properties, then the prototype chain.\<close>

definition active_read :: "state \<Rightarrow> string \<Rightarrow> nat property" where
  "active_read s k =
     obj_read_via (map_option (\<lambda>p. user_get (heap s p)) (active_proto s))
       (prototype_message s) (active_users s) k"

text \<open>
  The keys that \<^verbatim>\<open>for (let id in active_users)\<close> visits after the own keys: the
  enumerable properties of the prototype chain.
\<close>

definition inherited_keys :: "state \<Rightarrow> string list" where
  "inherited_keys s =
     (case active_proto s of None \<Rightarrow> [] | Some p \<Rightarrow> user_keys (heap s p)) @
     (case prototype_message s of None \<Rightarrow> [] | Some t \<Rightarrow> [''message''])"

text \<open>
  \<^verbatim>\<open>getActiveUser\<close> returns the first own entry that passes the test. When none does,
  the loop goes on to the inherited enumerable keys that no own key hides. What
  \<^verbatim>\<open>active_users[id]\<close> reads under such a key is a string, an array, \<^verbatim>\<open>null\<close> or
  \<^verbatim>\<open>undefined\<close>, and \<^verbatim>\<open>user.socketIds.includes\<close> throws a \<^verbatim>\<open>TypeError\<close> on each
  of them; with no such key the loop ends and the result is \<^verbatim>\<open>null\<close> (\<open>Inr None\<close>).
\<close>

definition getActiveUser :: "state \<Rightarrow> search \<Rightarrow> error + nat option" where
  "getActiveUser s x =
     (case find (\<lambda>(k, r). matches x (heap s r)) (active_users s) of
        Some (k, r) \<Rightarrow> Inr (Some r)
      | None \<Rightarrow>
          if list_all (obj_has (active_users s)) (inherited_keys s) then Inr None
          else Inl TypeError)"

definition getChatsCount :: "state \<Rightarrow> string \<Rightarrow> error + nat" where
  "getChatsCount s x =
     (case getActiveUser s (Search_string x) of
        Inl e \<Rightarrow> Inl e
      | Inr None \<Rightarrow> Inl TypeError
      | Inr (Some r) \<Rightarrow> Inr (length (chatIds (heap s r))))"

definition isUserActive :: "state \<Rightarrow> string \<Rightarrow> bool" where
  "isUserActive s k = truthy (active_read s k)"

text \<open>
  \<^verbatim>\<open>addToWaitingList({ loginId, email, socket })\<close> allocates a fresh user object and
  assigns it to \<^verbatim>\<open>waiting_users[email ?? loginId]\<close>. The body has no \<^verbatim>\<open>throw\<close> and no
  test of the waiting list, so the result is always the normal return. Under the id
  \<^verbatim>\<open>__proto__\<close> the assignment files no entry. (The prototype this gives the waiting
  list is never read: the module reads \<^verbatim>\<open>waiting_users\<close> under its own keys and under
  \<^verbatim>\<open>"undefined"\<close> only, which no user object defines.)
\<close>

definition addToWaitingList ::
  "string \<Rightarrow> string option \<Rightarrow> string \<Rightarrow> state \<Rightarrow> (error + unit) \<times> state" where
  "addToWaitingList lid em socket s =
     (let key = (case em of Some e \<Rightarrow> e | None \<Rightarrow> lid);
          r = next_ref s;
          u = \<lparr>user_id = None, email = em, loginId = lid, socketConnections = [socket],
               socketIds = [socket], currentChatId = None, chatIds = []\<rparr>
      in (Inr (), s\<lparr>heap := (heap s)(r := u), next_ref := Suc r,
                      waiting_users := obj_set key r (waiting_users s),
                      waiting_proto := (if sets_prototype (waiting_users s) key then Some r
                                        else waiting_proto s)\<rparr>))"

definition addActiveUser :: "nat \<Rightarrow> state \<Rightarrow> state" where
  "addActiveUser r s =
     s\<lparr>active_users := obj_set (emailOrLoginId (heap s r)) r (active_users s),
       active_proto := (if sets_prototype (active_users s) (emailOrLoginId (heap s r)) then Some r
                        else active_proto s)\<rparr>"

definition delActiveUser :: "store \<Rightarrow> nat \<Rightarrow> state \<Rightarrow> (error + unit) \<times> state" where
  "delActiveUser db r s =
     (let s1 = s\<lparr>active_users := obj_delete (emailOrLoginId (heap s r)) (active_users s)\<rparr>;
          (ok, s2) = call_store db (ActiveUser_deleteOne (user_id (heap s1 r))) s1
      in if ok then (Inr (), s2) else (Inl StoreError, s2))"

definition delWaitingUser :: "string \<Rightarrow> state \<Rightarrow> state" where
  "delWaitingUser k s = s\<lparr>waiting_users := obj_delete k (waiting_users s)\<rparr>"

definition getWaitingUserLen :: "state \<Rightarrow> nat" where
  "getWaitingUserLen s = length (obj_keys (waiting_users s))"

text \<open>\<^verbatim>\<open>chats[chatId] ?? null\<close>; \<open>Undefined\<close> stands for the \<^verbatim>\<open>null\<close>.\<close>

definition getChat :: "state \<Rightarrow> string \<Rightarrow> chat property" where
  "getChat s c = obj_read (prototype_message s) (chats s) c"

section \<open>Pairing engine\<close>

text \<open>
  One round of the loop of \<^verbatim>\<open>getRandomPairFromWaitingList\<close>, for the value \<open>x\<close>
  returned by \<^verbatim>\<open>Math.random()\<close>. Reading \<^verbatim>\<open>waitingUserIds\<close> out of range gives
  \<^verbatim>\<open>undefined\<close>, which as a property key is the string \<^verbatim>\<open>"undefined"\<close>; a missing
  property reads as \<^verbatim>\<open>undefined\<close> (\<open>None\<close>) and is pushed as such. The key read is an
  own key or \<^verbatim>\<open>"undefined"\<close>, a name that nothing on the prototype chain defines, so the
  read is that of the own property. The product is taken exactly, where the source
  rounds it to a double; both give an index below the length.
\<close>

definition pick_user :: "rat \<Rightarrow> string list \<times> nat option list \<times> state \<Rightarrow>
    string list \<times> nat option list \<times> state" where
  "pick_user x = (\<lambda>(waitingUserIds, pairedUsers, s).
     (let randomIndex = nat \<lfloor>x * of_nat (length waitingUserIds)\<rfloor>;
          randomId = (if randomIndex < length waitingUserIds
                      then waitingUserIds ! randomIndex else ''undefined'')
      in (splice1 randomIndex waitingUserIds,
          pairedUsers @ [obj_get (waiting_users s) randomId],
          delWaitingUser randomId s)))"

definition getRandomPairFromWaitingList :: "(nat \<Rightarrow> rat) \<Rightarrow> state \<Rightarrow> nat option list \<times> state" where
  "getRandomPairFromWaitingList random s =
     (let (waitingUserIds, pairedUsers, s') =
            fold (\<lambda>i. pick_user (random i)) [0..<2] (obj_keys (waiting_users s), [], s)
      in (pairedUsers, s'))"

section \<open>Chat lifecycle\<close>

text \<open>
  The loop of \<^verbatim>\<open>createChat\<close> over \<^verbatim>\<open>users\<close>; \<open>ids\<close> is \<^verbatim>\<open>_chat.users\<close>.
  Destructuring an \<^verbatim>\<open>undefined\<close> element throws; a rejected \<^verbatim>\<open>ActiveUser.create\<close>
  leaves the function with whatever was done for the users before.
\<close>

fun createChat_users :: "store \<Rightarrow> string \<Rightarrow> nat option list \<Rightarrow> string list \<Rightarrow> state \<Rightarrow>
    (error + string list) \<times> state" where
  "createChat_users db chatId [] ids s = (Inr ids, s)"
| "createChat_users db chatId (None # users) ids s = (Inl TypeError, s)"
| "createChat_users db chatId (Some r # users) ids s =
     (let (ok, s1) =
            call_store db (ActiveUser_create (email (heap s r)) (loginId (heap s r)) chatId) s
      in if \<not> ok then (Inl StoreError, s1)
         else
           let uid = created_user_id db (store_log s1);
               u = (heap s1 r)\<lparr>user_id := Some uid, currentChatId := Some chatId,
                                chatIds := chatIds (heap s1 r) @ [chatId]\<rparr>;
               s2 = s1\<lparr>heap := (heap s1)(r := u),
                       joined := joined s1 @ map (\<lambda>socket. (socket, chatId)) (socketConnections u)\<rparr>
           in createChat_users db chatId users (ids @ [uid]) (addActiveUser r s2))"

text \<open>
  \<open>chatId\<close> is the string of the fresh \<^verbatim>\<open>new mongoose.Types.ObjectId()\<close>, so the
  assignment \<^verbatim>\<open>chats[chatId] = optimizedChat\<close> defines an own property.
\<close>

definition createChat :: "store \<Rightarrow> string \<Rightarrow> nat option list \<Rightarrow> state \<Rightarrow> (error + chat) \<times> state" where
  "createChat db chatId users s =
     (case createChat_users db chatId users [] s of
        (Inl e, s1) \<Rightarrow> (Inl e, s1)
      | (Inr ids, s1) \<Rightarrow>
          let (ok, s2) = call_store db (Chat_create chatId ids) s1
          in if \<not> ok then (Inl StoreError, s2)
             else
               let optimizedChat = (chat_optimizedVersion db (store_log s2))
                     \<lparr>userIds := [emailOrLoginId (heap s2 r). Some r \<leftarrow> users]\<rparr>
               in (Inr optimizedChat, s2\<lparr>chats := obj_define chatId optimizedChat (chats s2)\<rparr>))"

text \<open>
  \<^verbatim>\<open>user.chatIds.forEach((id, i) => { if (id == chatId) user.chatIds.splice(i, 1) })\<close>:
  \<^verbatim>\<open>forEach\<close> visits the indices below the length the array had at the start, skips
  an index the array no longer has, and reads the array as the callback left it.
\<close>

fun forEach_splice :: "string \<Rightarrow> nat \<Rightarrow> nat \<Rightarrow> string list \<Rightarrow> string list" where
  "forEach_splice chatId 0 i xs = xs"
| "forEach_splice chatId (Suc n) i xs =
     forEach_splice chatId n (Suc i)
       (if i < length xs \<and> xs ! i = chatId then splice1 i xs else xs)"

definition remove_chatId :: "string \<Rightarrow> string list \<Rightarrow> string list" where
  "remove_chatId chatId xs = forEach_splice chatId (length xs) 0 xs"

fun closeChat_users :: "store \<Rightarrow> string \<Rightarrow> string list \<Rightarrow> string list \<Rightarrow> state \<Rightarrow>
    (error + string list) \<times> state" where
  "closeChat_users db chatId [] inactiveList s = (Inr inactiveList, s)"
| "closeChat_users db chatId (userId # rest) inactiveList s =
     (case getActiveUser s (Search_string userId) of
        Inl e \<Rightarrow> (Inl e, s)
      | Inr None \<Rightarrow> closeChat_users db chatId rest inactiveList s
      | Inr (Some r) \<Rightarrow>
          let s1 = s\<lparr>heap := (heap s)
                     (r := (heap s r)\<lparr>chatIds := remove_chatId chatId (chatIds (heap s r))\<rparr>)\<rparr>;
              (ok, s2) = call_store db (Chat_deleteOne chatId) s1
          in if \<not> ok then (Inl StoreError, s2)
             else
               (case getChatsCount s2 userId of
                  Inl e \<Rightarrow> (Inl e, s2)
                | Inr n \<Rightarrow>
                    if n = 0 then
                      (let s3 = s2\<lparr>heap := (heap s2)(r := (heap s2 r)\<lparr>currentChatId := None\<rparr>)\<rparr>
                       in case delActiveUser db r s3 of
                            (Inl e, s4) \<Rightarrow> (Inl e, s4)
                          | (Inr u, s4) \<Rightarrow>
                              closeChat_users db chatId rest
                                (if emailOrLoginId (heap s4 r) \<in> set inactiveList then inactiveList
                                 else inactiveList @ [emailOrLoginId (heap s4 r)]) s4)
                    else closeChat_users db chatId rest inactiveList s2))"

text \<open>
  The result \<open>Inr None\<close> is the \<^verbatim>\<open>return null\<close> for a falsy \<^verbatim>\<open>getChat(chatId)\<close>. A
  truthy inherited value passes that test; it has no \<^verbatim>\<open>messages\<close>, and
  \<^verbatim>\<open>Object.keys(undefined)\<close> throws before \<^verbatim>\<open>Message.deleteMany\<close> is called.
\<close>

definition closeChat :: "store \<Rightarrow> string \<Rightarrow> state \<Rightarrow> (error + string list option) \<times> state" where
  "closeChat db chatId s =
     (let (ok, s0) = call_store db (Chat_deleteOne chatId) s
      in if \<not> ok then (Inl StoreError, s0)
         else
           (case getChat s0 chatId of
              Undefined \<Rightarrow> (Inr None, s0)
            | Inherited b \<Rightarrow> if b then (Inl TypeError, s0) else (Inr None, s0)
            | Own c \<Rightarrow>
                let (ok1, s1) = call_store db (Message_deleteMany (obj_keys (messages c))) s0
                in if \<not> ok1 then (Inl StoreError, s1)
                   else
                     (case closeChat_users db chatId (userIds c) [] s1 of
                        (Inl e, s2) \<Rightarrow> (Inl e, s2)
                      | (Inr inactiveList, s2) \<Rightarrow>
                          (Inr (Some inactiveList),
                           s2\<lparr>chats := obj_delete chatId (chats s2)\<rparr>))))"

section \<open>Message lifecycle\<close>

text \<open>The second argument of \<^verbatim>\<open>addMessage\<close>; \<^verbatim>\<open>type\<close> defaults to \<^verbatim>\<open>'message'\<close>.\<close>

record new_message =
  new_message :: string
  new_time :: string
  new_senderId :: string
  new_type :: "msg_type option"

text \<open>
  The guard of line 242 is the truthiness of \<^verbatim>\<open>chats[chatId]\<close>, which a truthy
  inherited value passes. \<^verbatim>\<open>new mongoose.Types.ObjectId(sender.id)\<close> is evaluated
  before \<^verbatim>\<open>Message.create\<close> is called; without an id it builds a fresh one. After both
  store calls the message is assigned into \<^verbatim>\<open>chats[chatId].messages\<close>, under the id the
  store gave it (the string of an \<^verbatim>\<open>ObjectId\<close>); an inherited value has no
  \<^verbatim>\<open>messages\<close> and the assignment throws a \<^verbatim>\<open>TypeError\<close>.
\<close>

definition addMessage :: "store \<Rightarrow> string \<Rightarrow> new_message \<Rightarrow> state \<Rightarrow> (error + msg option) \<times> state" where
  "addMessage db chatId m s =
     (case getActiveUser s (Search_string (new_senderId m)) of
        Inl e \<Rightarrow> (Inl e, s)
      | Inr None \<Rightarrow> (Inr None, s)
      | Inr (Some sender) \<Rightarrow>
          if \<not> truthy (obj_read (prototype_message s) (chats s) chatId) then (Inr None, s)
          else if (case user_id (heap s sender) of None \<Rightarrow> False
                   | Some i \<Rightarrow> invalid_ObjectId db i) then (Inl BSONError, s)
          else
            let (ok, s1) = call_store db
                  (Message_create (new_message m) (user_id (heap s sender))
                     (case new_type m of None \<Rightarrow> Message_type | Some t \<Rightarrow> t) (new_time m)) s
            in if \<not> ok then (Inl StoreError, s1)
               else
                 let optimizedMessage =
                       (message_optimizedVersion db (store_log s1))\<lparr>senderId := new_senderId m\<rparr>;
                     (ok2, s2) = call_store db
                       (Chat_updateOne_push chatId (msg_id optimizedMessage)) s1
                 in if \<not> ok2 then (Inl StoreError, s2)
                    else
                      (case obj_read (prototype_message s2) (chats s2) chatId of
                         Own c \<Rightarrow>
                           (Inr (Some optimizedMessage),
                            s2\<lparr>chats := obj_define chatId
                               (c\<lparr>messages := obj_define (msg_id optimizedMessage) optimizedMessage
                                                (messages c)\<rparr>) (chats s2)\<rparr>)
                       | _ \<Rightarrow> (Inl TypeError, s2)))"

text \<open>
  \<^verbatim>\<open>editMessage(chatId, { id, message })\<close>. The two guards stand before the \<^verbatim>\<open>try\<close>:
  a truthy inherited \<^verbatim>\<open>chats[chatId]\<close> passes the first and has no \<^verbatim>\<open>messages\<close>, so
  the second throws a \<^verbatim>\<open>TypeError\<close>. The \<^verbatim>\<open>catch\<close> turns a rejection of the store into
  \<^verbatim>\<open>false\<close>. The assignment of line 304 writes the property \<^verbatim>\<open>message\<close> of whatever
  \<^verbatim>\<open>messages[id]\<close> reads: a cached message; or an inherited value, which a truthy one
  passes the guard with. Of these, \<^verbatim>\<open>messages["__proto__"]\<close> is \<^verbatim>\<open>Object.prototype\<close>
  itself, which gets the property; the others are built-in functions, whose new property
  nothing reads, or a string, on which the assignment does nothing.
\<close>

definition editMessage ::
  "store \<Rightarrow> string \<Rightarrow> string \<Rightarrow> string \<Rightarrow> state \<Rightarrow> (error + bool) \<times> state" where
  "editMessage db chatId mid txt s =
     (case obj_read (prototype_message s) (chats s) chatId of
        Undefined \<Rightarrow> (Inr False, s)
      | Inherited b \<Rightarrow> if b then (Inl TypeError, s) else (Inr False, s)
      | Own c \<Rightarrow>
          (case obj_read (prototype_message s) (messages c) mid of
             Undefined \<Rightarrow> (Inr False, s)
           | Inherited b \<Rightarrow>
               if \<not> b then (Inr False, s)
               else
                 let (ok, s1) = call_store db (Message_updateOne_set mid txt) s
                 in if \<not> ok then (Inr False, s1)
                    else (Inr True,
                          if mid = ''__proto__'' then s1\<lparr>prototype_message := Some txt\<rparr> else s1)
           | Own m \<Rightarrow>
               let (ok, s1) = call_store db (Message_updateOne_set mid txt) s
               in if \<not> ok then (Inr False, s1)
                  else (Inr True,
                        s1\<lparr>chats := obj_define chatId
                           (c\<lparr>messages := obj_define mid (m\<lparr>message := txt\<rparr>) (messages c)\<rparr>)
                           (chats s1)\<rparr>)))"

section \<open>Bootstrap\<close>

text \<open>
  What \<^verbatim>\<open>init\<close> reads from the store: the documents of \<^verbatim>\<open>Chat.find()\<close> with
  \<^verbatim>\<open>users\<close>, \<^verbatim>\<open>messages\<close> and each message's \<^verbatim>\<open>sender\<close> populated (a sender that
  cannot be resolved is \<^verbatim>\<open>null\<close>), the documents of \<^verbatim>\<open>ActiveUser.find()\<close>, and for
  each user \<^verbatim>\<open>_id\<close> the ids of the chats that \<^verbatim>\<open>Chat.find({ users: { $in: [_id] } })\<close>
  returns. The \<^verbatim>\<open>optimizedVersion\<close> of a document is a field of it.
\<close>

record user_doc =
  ud_id :: string
  ud_email :: "string option"
  ud_loginId :: string
  ud_optimizedVersion :: user

record message_doc =
  md_id :: string
  md_sender :: "user_doc option"
  md_optimizedVersion :: msg

record chat_doc =
  cd_id :: string
  cd_users :: "user_doc list"
  cd_messages :: "message_doc list"
  cd_optimizedVersion :: chat

record snapshot =
  found_chats :: "chat_doc list"
  found_active_users :: "user_doc list"
  found_chats_of :: "string \<Rightarrow> string list"

text \<open>
  Modelled from the spec: the virtual attribute \<^verbatim>\<open>emailOrLoginId\<close> of a persisted user
  document, declared in \<^verbatim>\<open>models/ActiveUserModel\<close> (not part of the sources read
  here): the email if present, otherwise the login identifier.
\<close>

definition ud_emailOrLoginId :: "user_doc \<Rightarrow> string" where
  "ud_emailOrLoginId d = (case ud_email d of Some e \<Rightarrow> e | None \<Rightarrow> ud_loginId d)"

text \<open>
  The inner loop over \<^verbatim>\<open>chat.messages\<close>. \<open>None\<close> is the \<^verbatim>\<open>return\<close> of line 68,
  which leaves \<^verbatim>\<open>init\<close> itself. Messages and chats are filed under
  \<^verbatim>\<open>_id.toString()\<close>, the string of an \<^verbatim>\<open>ObjectId\<close>.
\<close>

fun init_messages :: "message_doc list \<Rightarrow> msg obj \<Rightarrow> msg obj option" where
  "init_messages [] ms = Some ms"
| "init_messages (m # rest) ms =
     (case md_sender m of
        None \<Rightarrow> None
      | Some sender \<Rightarrow>
          init_messages rest
            (obj_define (md_id m)
               ((md_optimizedVersion m)\<lparr>senderId := ud_emailOrLoginId sender\<rparr>) ms))"

text \<open>The first loop; the flag tells whether \<^verbatim>\<open>init\<close> is still running after it.\<close>

fun init_chats :: "chat_doc list \<Rightarrow> state \<Rightarrow> bool \<times> state" where
  "init_chats [] s = (True, s)"
| "init_chats (c # rest) s =
     (case init_messages (cd_messages c) [] of
        None \<Rightarrow> (False, s)
      | Some ms \<Rightarrow>
          init_chats rest
            (s\<lparr>chats := obj_define (cd_id c)
                 ((cd_optimizedVersion c)\<lparr>userIds := map ud_emailOrLoginId (cd_users c),
                                           messages := ms\<rparr>) (chats s)\<rparr>))"

fun init_active_users :: "(string \<Rightarrow> string list) \<Rightarrow> user_doc list \<Rightarrow> state \<Rightarrow> state" where
  "init_active_users chats_of [] s = s"
| "init_active_users chats_of (activeUser # rest) s =
     init_active_users chats_of rest
       (s\<lparr>heap := (heap s)
              (next_ref s := (ud_optimizedVersion activeUser)\<lparr>chatIds := chats_of (ud_id activeUser)\<rparr>),
          next_ref := Suc (next_ref s),
          active_users := obj_set (ud_emailOrLoginId activeUser) (next_ref s) (active_users s),
          active_proto := (if sets_prototype (active_users s) (ud_emailOrLoginId activeUser)
                           then Some (next_ref s) else active_proto s)\<rparr>)"

definition init :: "snapshot \<Rightarrow> state \<Rightarrow> state" where
  "init snap s =
     (case init_chats (found_chats snap) s of
        (False, s1) \<Rightarrow> s1
      | (True, s1) \<Rightarrow> init_active_users (found_chats_of snap) (found_active_users snap) s1)"

section \<open>The core operations as steps\<close>

text \<open>
  The operations on the two user maps, with their arguments, and the state each leaves
  behind whatever it returns.
\<close>

datatype operation =
    AddToWaitingList string "string option" string
  | GetRandomPairFromWaitingList "nat \<Rightarrow> rat"
  | CreateChat string "nat option list"
  | AddActiveUser nat
  | CloseChat string
  | DelActiveUser nat
  | DelWaitingUser string

fun perform :: "store \<Rightarrow> operation \<Rightarrow> state \<Rightarrow> state" where
  "perform db (AddToWaitingList lid em socket) s = snd (addToWaitingList lid em socket s)"
| "perform db (GetRandomPairFromWaitingList random) s = snd (getRandomPairFromWaitingList random s)"
| "perform db (CreateChat chatId users) s = snd (createChat db chatId users s)"
| "perform db (AddActiveUser r) s = addActiveUser r s"
| "perform db (CloseChat chatId) s = snd (closeChat db chatId s)"
| "perform db (DelActiveUser r) s = snd (delActiveUser db r s)"
| "perform db (DelWaitingUser k) s = delWaitingUser k s"

text \<open>The operations that file a user in the active map.\<close>

fun promotes :: "operation \<Rightarrow> bool" where
  "promotes (CreateChat chatId users) = True"
| "promotes (AddActiveUser r) = True"
| "promotes _ = False"

text \<open>
  The discipline under which the two maps stay apart: nobody joins the waiting list
  under an id that is a key of the active map, and a user is made active only when its id
  is off the waiting list. The source checks neither.
\<close>

fun permitted :: "operation \<Rightarrow> state \<Rightarrow> bool" where
  "permitted (AddToWaitingList lid em socket) s =
     (\<not> obj_has (active_users s) (case em of Some e \<Rightarrow> e | None \<Rightarrow> lid))"
| "permitted (CreateChat chatId users) s =
     list_all (\<lambda>x. case x of None \<Rightarrow> True
                 | Some r \<Rightarrow> \<not> obj_has (waiting_users s) (emailOrLoginId (heap s r))) users"
| "permitted (AddActiveUser r) s = (\<not> obj_has (waiting_users s) (emailOrLoginId (heap s r)))"
| "permitted _ s = True"

section \<open>Properties of the caches\<close>

text \<open>
  An index object in which every user is filed under the identifier computed from the
  user itself, as \<^verbatim>\<open>addToWaitingList\<close> and \<^verbatim>\<open>addActiveUser\<close> file it. The keys
  of an object are distinct by construction, and an object filled by assignments has no
  own key \<^verbatim>\<open>__proto__\<close> (lemmas \<open>obj_set_own_keys\<close>, \<open>addToWaitingList_keeps_filing\<close>).
\<close>

definition stored_under_derived_id :: "(nat \<Rightarrow> user) \<Rightarrow> nat obj \<Rightarrow> bool" where
  "stored_under_derived_id h m =
     (distinct (obj_keys m) \<and> ''__proto__'' \<notin> set (obj_keys m) \<and>
      (\<forall>(k, r) \<in> set m. emailOrLoginId (h r) = k))"

definition never_both :: "state \<Rightarrow> bool" where
  "never_both s = (set (obj_keys (waiting_users s)) \<inter> set (obj_keys (active_users s)) = {})"



text \<open>
  One round of the loop of \<^verbatim>\<open>createChat\<close> when the store resolves
  \<^verbatim>\<open>ActiveUser.create\<close>: the state \<^verbatim>\<open>createChat_users\<close> continues with (lemma
  \<open>createChat_users_accepted\<close>).
\<close>

definition promote :: "store \<Rightarrow> string \<Rightarrow> nat \<Rightarrow> state \<Rightarrow> state" where
  "promote db chatId r s =
     (let log = store_log s @ [ActiveUser_create (email (heap s r)) (loginId (heap s r)) chatId];
          u = (heap s r)\<lparr>user_id := Some (created_user_id db log), currentChatId := Some chatId,
                          chatIds := chatIds (heap s r) @ [chatId]\<rparr>
      in s\<lparr>store_log := log, heap := (heap s)(r := u),
            joined := joined s @ map (\<lambda>socket. (socket, chatId)) (socketConnections u),
            active_users := obj_set (emailOrLoginId u) r (active_users s),
            active_proto := (if sets_prototype (active_users s) (emailOrLoginId u) then Some r
                             else active_proto s)\<rparr>)"



section \<open>Example states\<close>

definition blank_user :: user where
  "blank_user = \<lparr>user_id = None, email = None, loginId = [], socketConnections = [],
     socketIds = [], currentChatId = None, chatIds = []\<rparr>"

text \<open>The module as loaded: three empty caches.\<close>

definition empty_state :: state where
  "empty_state = \<lparr>heap = (\<lambda>r. blank_user), next_ref = 0, waiting_users = [],
     active_users = [], chats = [], store_log = [], joined = [], waiting_proto = None,
     active_proto = None, prototype_message = None\<rparr>"

text \<open>
  A store that resolves every call and whose \<^verbatim>\<open>ObjectId\<close> constructor takes every
  string, and one that rejects every call.
\<close>

definition accepting_store :: store where
  "accepting_store = \<lparr>rejects = (\<lambda>log. False),
     created_user_id = (\<lambda>log. replicate (length log) CHR ''u''),
     chat_optimizedVersion = (\<lambda>log. case last log of
        Chat_create c ids \<Rightarrow> \<lparr>chat_id = c, userIds = [], messages = [], createdAt = ''now''\<rparr>
      | _ \<Rightarrow> \<lparr>chat_id = [], userIds = [], messages = [], createdAt = []\<rparr>),
     message_optimizedVersion = (\<lambda>log. case last log of
        Message_create txt sender ty tm \<Rightarrow>
          \<lparr>msg_id = replicate (length log) CHR ''m'', message = txt, senderId = [],
           time = tm, mtype = ty\<rparr>
      | _ \<Rightarrow> \<lparr>msg_id = [], message = [], senderId = [], time = [], mtype = Message_type\<rparr>),
     invalid_ObjectId = (\<lambda>i. False)\<rparr>"

definition failing_store :: store where
  "failing_store = accepting_store\<lparr>rejects := (\<lambda>log. True)\<rparr>"

text \<open>
  Alice and bob join the waiting list, are drawn as a pair and put in chat \<open>c1\<close>;
  \<open>after_pairing\<close> is the state this leaves, from the empty caches and with the accepting store (lemma
  \<open>after_pairing_reached\<close>). Bob has an email, alice has none.
\<close>

definition pairing :: "operation list" where
  "pairing = [AddToWaitingList ''alice'' None ''s1'',
     AddToWaitingList ''bob'' (Some ''bob@x.org'') ''s2'',
     GetRandomPairFromWaitingList (\<lambda>i. 0),
     CreateChat ''c1'' [Some 0, Some 1]]"

definition after_pairing :: state where
  "after_pairing = \<lparr>heap = (\<lambda>r. blank_user)
       (0 := \<lparr>user_id = Some ''u'', email = None, loginId = ''alice'',
              socketConnections = [''s1''], socketIds = [''s1''], currentChatId = Some ''c1'',
              chatIds = [''c1'']\<rparr>,
        1 := \<lparr>user_id = Some ''uu'', email = Some ''bob@x.org'', loginId = ''bob'',
              socketConnections = [''s2''], socketIds = [''s2''], currentChatId = Some ''c1'',
              chatIds = [''c1'']\<rparr>),
     next_ref = 2, waiting_users = [],
     active_users = [(''alice'', 0), (''bob@x.org'', 1)],
     chats = [(''c1'', \<lparr>chat_id = ''c1'', userIds = [''alice'', ''bob@x.org''],
                        messages = [], createdAt = ''now''\<rparr>)],
     store_log = [ActiveUser_create None ''alice'' ''c1'',
                  ActiveUser_create (Some ''bob@x.org'') ''bob'' ''c1'',
                  Chat_create ''c1'' [''u'', ''uu'']],
     joined = [(''s1'', ''c1''), (''s2'', ''c1'')], waiting_proto = None, active_proto = None,
     prototype_message = None\<rparr>"

text \<open>Then alice joins the waiting list again.\<close>

definition rejoin :: "operation list" where
  "rejoin = pairing @ [AddToWaitingList ''alice'' None ''s3'']"

text \<open>The same two users in a chat that holds one message.\<close>

definition alice :: user where
  "alice = \<lparr>user_id = Some ''u1'', email = None, loginId = ''alice'',
     socketConnections = [''s1''], socketIds = [''s1''], currentChatId = Some ''c1'',
     chatIds = [''c1'']\<rparr>"

definition bob :: user where
  "bob = \<lparr>user_id = Some ''u2'', email = Some ''bob@x.org'', loginId = ''bob'',
     socketConnections = [''s2''], socketIds = [''s2''], currentChatId = Some ''c1'',
     chatIds = [''c1'']\<rparr>"

definition hello :: msg where
  "hello = \<lparr>msg_id = ''m1'', message = ''hello'', senderId = ''alice'', time = ''t1'',
     mtype = Message_type\<rparr>"

definition chatting :: state where
  "chatting = \<lparr>heap = (\<lambda>r. blank_user)(0 := alice, 1 := bob), next_ref = 2,
     waiting_users = [], active_users = [(''alice'', 0), (''bob@x.org'', 1)],
     chats = [(''c1'', \<lparr>chat_id = ''c1'', userIds = [''alice'', ''bob@x.org''],
                        messages = [(''m1'', hello)], createdAt = ''t0''\<rparr>)],
     store_log = [], joined = [], waiting_proto = None, active_proto = None,
     prototype_message = None\<rparr>"

definition greeting :: "string \<Rightarrow> new_message" where
  "greeting sender =
     \<lparr>new_message = ''hi'', new_time = ''t2'', new_senderId = sender, new_type = None\<rparr>"

text \<open>One user on the waiting list, and two.\<close>

definition one_waiting :: state where
  "one_waiting = snd (addToWaitingList ''alice'' None ''s1'' empty_state)"

definition two_waiting :: state where
  "two_waiting = \<lparr>heap = (\<lambda>r. blank_user)
       (0 := alice\<lparr>user_id := None, currentChatId := None, chatIds := []\<rparr>,
        1 := bob\<lparr>user_id := None, currentChatId := None, chatIds := []\<rparr>),
     next_ref = 2, waiting_users = [(''alice'', 0), (''bob@x.org'', 1)], active_users = [],
     chats = [], store_log = [], joined = [], waiting_proto = None, active_proto = None,
     prototype_message = None\<rparr>"



text \<open>
  Persisted documents: the two users, a chat of both with given messages, a message of
  alice, and a message whose sender no longer resolves.
\<close>

definition alice_doc :: user_doc where
  "alice_doc = \<lparr>ud_id = ''u1'', ud_email = None, ud_loginId = ''alice'',
     ud_optimizedVersion = alice\<lparr>socketConnections := [], socketIds := [], chatIds := []\<rparr>\<rparr>"

definition bob_doc :: user_doc where
  "bob_doc = \<lparr>ud_id = ''u2'', ud_email = Some ''bob@x.org'', ud_loginId = ''bob'',
     ud_optimizedVersion = bob\<lparr>socketConnections := [], socketIds := [], chatIds := []\<rparr>\<rparr>"

definition chat_doc_of :: "string \<Rightarrow> message_doc list \<Rightarrow> chat_doc" where
  "chat_doc_of c ms = \<lparr>cd_id = c, cd_users = [alice_doc, bob_doc], cd_messages = ms,
     cd_optimizedVersion = \<lparr>chat_id = c, userIds = [], messages = [], createdAt = ''t0''\<rparr>\<rparr>"

definition hello_doc :: message_doc where
  "hello_doc = \<lparr>md_id = ''m1'', md_sender = Some alice_doc, md_optimizedVersion = hello\<rparr>"

definition orphan_doc :: message_doc where
  "orphan_doc = \<lparr>md_id = ''m0'', md_sender = None,
     md_optimizedVersion = hello\<lparr>msg_id := ''m0''\<rparr>\<rparr>"

definition stored :: "chat_doc list \<Rightarrow> snapshot" where
  "stored cs = \<lparr>found_chats = cs, found_active_users = [alice_doc, bob_doc],
     found_chats_of = (\<lambda>u. map cd_id cs)\<rparr>"

section \<open>Facts about objects\<close>

lemma keys_insert_index: "set (map fst (insert_index k v m)) = insert k (set (map fst m))"
  by (induction k v m rule: insert_index.induct) (simp_all add: insert_commute del: set_map)

lemma map_of_insert_index:
  "k \<notin> set (map fst m) \<Longrightarrow>
   map_of (insert_index k v m) k' = (if k' = k then Some v else map_of m k')"
  by (induction k v m rule: insert_index.induct) (auto simp del: set_map)

lemma distinct_insert_index:
  "distinct (map fst m) \<Longrightarrow> k \<notin> set (map fst m) \<Longrightarrow> distinct (map fst (insert_index k v m))"
  by (induction k v m rule: insert_index.induct) (auto simp add: keys_insert_index simp del: set_map)

lemma keys_replace: "map fst (map (\<lambda>(k', v'). if k' = k then (k', v) else (k', v')) m) = map fst m"
  by (induction m) (simp_all add: case_prod_beta)

lemma map_of_replace:
  "map_of (map (\<lambda>(k', v'). if k' = k then (k', v) else (k', v')) m) k'' =
     (if k'' = k \<and> k \<in> set (map fst m) then Some v else map_of m k'')"
  by (induction m) (auto simp add: case_prod_beta simp del: set_map)

lemma map_of_snoc: "map_of (m @ [(k, v)]) k' = (if k' \<in> set (map fst m) then map_of m k' else if k' = k then Some v else None)"
  by (induction m) (simp_all del: set_map)

lemma obj_has_keys: "obj_has m k = (k \<in> set (obj_keys m))"
  by (simp add: obj_has_def obj_keys_def map_of_eq_None_iff)

lemma obj_get_None: "(obj_get m k = None) = (k \<notin> set (obj_keys m))"
  by (simp add: obj_get_def obj_keys_def map_of_eq_None_iff)

lemma obj_get_define: "obj_get (obj_define k v m) k' = (if k' = k then Some v else obj_get m k')"
proof -
  have nk: "\<not> obj_has m k \<Longrightarrow> k \<notin> set (map fst m)"
    by (simp add: obj_has_keys obj_keys_def)
  have yk: "obj_has m k \<Longrightarrow> k \<in> set (map fst m)"
    by (simp add: obj_has_keys obj_keys_def)
  have none: "k' \<notin> set (map fst m) \<Longrightarrow> map_of m k' = None"
    by (simp add: map_of_eq_None_iff)
  show ?thesis
    unfolding obj_get_def obj_define_def
    by (simp add: map_of_replace map_of_insert_index nk yk none map_add_def obj_has_def
        split: option.split del: set_map)
qed

lemma obj_has_define: "obj_has (obj_define k v m) k' = (k' = k \<or> obj_has m k')"
  using obj_get_define [of k v m k'] by (auto simp: obj_has_def obj_get_def)

lemma obj_keys_define: "set (obj_keys (obj_define k v m)) = insert k (set (obj_keys m))"
  using obj_has_define [of k v m] by (auto simp: obj_has_keys)

lemma distinct_obj_define: "distinct (obj_keys m) \<Longrightarrow> distinct (obj_keys (obj_define k v m))"
proof -
  have nk: "\<not> obj_has m k \<Longrightarrow> k \<notin> set (map fst m)"
    by (simp add: obj_has_keys obj_keys_def)
  show "distinct (obj_keys m) \<Longrightarrow> distinct (obj_keys (obj_define k v m))"
    unfolding obj_keys_def obj_define_def
    by (simp add: keys_replace distinct_insert_index nk del: set_map map_map)
qed

text \<open>
  An assignment defines the own property unless it sets the prototype; under any key
  other than \<^verbatim>\<open>__proto__\<close> it always does, and it never creates an own key
  \<^verbatim>\<open>__proto__\<close>.
\<close>

lemma obj_set_define: "k \<noteq> ''__proto__'' \<Longrightarrow> obj_set k v m = obj_define k v m"
  by (simp add: obj_set_def sets_prototype_def)

lemma obj_get_set:
  "obj_get (obj_set k v m) k' =
     (if k' = k \<and> \<not> sets_prototype m k then Some v else obj_get m k')"
  by (simp add: obj_set_def obj_get_define)

lemma obj_has_set:
  "obj_has (obj_set k v m) k' = ((k' = k \<and> \<not> sets_prototype m k) \<or> obj_has m k')"
  by (auto simp: obj_set_def obj_has_define)

lemma obj_keys_set:
  "set (obj_keys (obj_set k v m)) =
     (if sets_prototype m k then set (obj_keys m) else insert k (set (obj_keys m)))"
  by (simp add: obj_set_def obj_keys_define)

lemma obj_keys_set_subset: "set (obj_keys (obj_set k v m)) \<subseteq> insert k (set (obj_keys m))"
  by (auto simp: obj_keys_set)

lemma distinct_obj_set: "distinct (obj_keys m) \<Longrightarrow> distinct (obj_keys (obj_set k v m))"
  by (simp add: obj_set_def distinct_obj_define)

lemma obj_set_own_keys:
  "''__proto__'' \<notin> set (obj_keys m) \<Longrightarrow> ''__proto__'' \<notin> set (obj_keys (obj_set k v m))"
  by (auto simp: obj_keys_set sets_prototype_def obj_has_keys split: if_splits)

lemma obj_read_own: "obj_get m k = Some v \<Longrightarrow> obj_read pm m k = Own v"
  by (simp add: obj_read_def)

lemma set_insert_index: "set (insert_index k v m) = insert (k, v) (set m)"
  by (induction k v m rule: insert_index.induct) auto

lemma set_obj_define: "set (obj_define k v m) \<subseteq> insert (k, v) (set m)"
  by (auto simp: obj_define_def set_insert_index split: if_splits)

lemma set_obj_set: "set (obj_set k v m) \<subseteq> insert (k, v) (set m)"
  using set_obj_define [of k v m] by (auto simp: obj_set_def)

lemma obj_get_delete: "obj_get (obj_delete k m) k' = (if k' = k then None else obj_get m k')"
  by (induction m) (auto simp: obj_get_def obj_delete_def)

lemma obj_has_delete: "obj_has (obj_delete k m) k' = (k' \<noteq> k \<and> obj_has m k')"
  using obj_get_delete [of k m k'] by (auto simp: obj_has_def obj_get_def)

lemma obj_keys_delete: "obj_keys (obj_delete k m) = filter (\<lambda>k'. k' \<noteq> k) (obj_keys m)"
  by (induction m) (auto simp: obj_keys_def obj_delete_def)

lemma distinct_obj_delete: "distinct (obj_keys m) \<Longrightarrow> distinct (obj_keys (obj_delete k m))"
  by (simp add: obj_keys_delete)


lemma obj_get_Some_mem: "obj_get m k = Some v \<Longrightarrow> (k, v) \<in> set m"
  by (simp add: obj_get_def map_of_SomeD)

lemma obj_get_mem: "distinct (obj_keys m) \<Longrightarrow> (k, v) \<in> set m \<Longrightarrow> obj_get m k = Some v"
  by (simp add: obj_get_def obj_keys_def)

lemma length_obj_delete:
  "distinct (obj_keys m) \<Longrightarrow> k \<in> set (obj_keys m) \<Longrightarrow> Suc (length (obj_delete k m)) = length m"
proof (induction m)
  case Nil
  then show ?case by (simp add: obj_keys_def)
next
  case (Cons p m)
  show ?case
  proof (cases "fst p = k")
    case True
    with Cons.prems have "k \<notin> fst ` set m" by (auto simp: obj_keys_def)
    then have "filter (\<lambda>(k', v'). k' \<noteq> k) m = m"
      by (intro filter_True) force
    with True show ?thesis by (simp add: obj_delete_def case_prod_beta)
  next
    case False
    with Cons show ?thesis by (auto simp: obj_delete_def obj_keys_def case_prod_beta)
  qed
qed

section \<open>Looking up an active user\<close>

lemma find_case_prod_None:
  "(find (\<lambda>(k, r). P r) m = None) = (\<forall>(k, r) \<in> set m. \<not> P r)"
  by (induction m) auto

lemma getActiveUser_no_match:
  "\<forall>(k, r) \<in> set (active_users s). \<not> matches x (heap s r) \<Longrightarrow>
     getActiveUser s x =
       (if list_all (obj_has (active_users s)) (inherited_keys s) then Inr None
        else Inl TypeError)"
  using find_case_prod_None [of "\<lambda>r. matches x (heap s r)" "active_users s"]
  by (simp add: getActiveUser_def)

lemma getActiveUser_match:
  "\<exists>(k, r) \<in> set (active_users s). matches x (heap s r) \<Longrightarrow>
     \<exists>r. getActiveUser s x = Inr (Some r)"
  using find_case_prod_None [of "\<lambda>r. matches x (heap s r)" "active_users s"]
  by (cases "find (\<lambda>(k, r). matches x (heap s r)) (active_users s)")
    (auto simp: getActiveUser_def)

lemma find_case_prod_Some:
  "find (\<lambda>(k, r). P r) m = Some (k, r) \<Longrightarrow> (k, r) \<in> set m \<and> P r"
  by (induction m) (auto split: if_splits)

lemma getActiveUser_Some:
  assumes "getActiveUser s x = Inr (Some r)"
  shows "(\<exists>k. (k, r) \<in> set (active_users s)) \<and> matches x (heap s r)"
proof (cases "find (\<lambda>(k, r). matches x (heap s r)) (active_users s)")
  case None
  with assms show ?thesis by (simp add: getActiveUser_def split: if_splits)
next
  case (Some p)
  obtain k r' where p: "p = (k, r')" by (cases p)
  with assms Some have "r' = r" by (simp add: getActiveUser_def)
  with find_case_prod_Some [of "\<lambda>r. matches x (heap s r)" "active_users s" k r] Some p
  show ?thesis by blast
qed

lemma find_cong_set:
  "(\<And>x. x \<in> set xs \<Longrightarrow> P x = Q x) \<Longrightarrow> find P xs = find Q xs"
  by (induction xs) auto

lemma getActiveUser_cong:
  assumes "active_users s' = active_users s" and "inherited_keys s' = inherited_keys s"
    and "\<And>r. socketIds (heap s' r) = socketIds (heap s r) \<and> email (heap s' r) = email (heap s r)
           \<and> loginId (heap s' r) = loginId (heap s r)"
  shows "getActiveUser s' x = getActiveUser s x"
proof -
  have "matches x (heap s' r) = matches x (heap s r)" for r
    using assms(3) [of r] by (cases x) (simp_all split: option.split)
  then show ?thesis
    by (simp add: getActiveUser_def assms(1,2))
qed

lemma inherited_keys_update [simp]:
  "inherited_keys (s\<lparr>store_log := l\<rparr>) = inherited_keys s"
  "inherited_keys (s\<lparr>heap := (heap s)(r := (heap s r)\<lparr>chatIds := xs\<rparr>)\<rparr>) = inherited_keys s"
  "inherited_keys (s\<lparr>heap := (heap s)(r := (heap s r)\<lparr>currentChatId := c\<rparr>)\<rparr>) = inherited_keys s"
  "inherited_keys (s\<lparr>active_users := a\<rparr>) = inherited_keys s"
  "inherited_keys (s\<lparr>chats := cs\<rparr>) = inherited_keys s"
  by (simp_all add: inherited_keys_def user_keys_def split: option.split)



lemma stored_under_derived_id_distinct_refs:
  assumes "stored_under_derived_id h m" "obj_get m k1 = Some r1" "obj_get m k2 = Some r2"
  shows "emailOrLoginId (h r1) = k1" "emailOrLoginId (h r2) = k2" "k1 \<noteq> k2 \<Longrightarrow> r1 \<noteq> r2"
proof -
  have "(k1, r1) \<in> set m" "(k2, r2) \<in> set m"
    using assms by (simp_all add: obj_get_Some_mem)
  with assms(1) show "emailOrLoginId (h r1) = k1" "emailOrLoginId (h r2) = k2"
    unfolding stored_under_derived_id_def by blast+
  then show "k1 \<noteq> k2 \<Longrightarrow> r1 \<noteq> r2" by blast
qed


lemma getActiveUser_chatIds_update [simp]:
  "getActiveUser (s\<lparr>heap := (heap s)(r := (heap s r)\<lparr>chatIds := xs\<rparr>), store_log := l\<rparr>) x =
     getActiveUser s x"
proof (rule getActiveUser_cong)
  show "inherited_keys (s\<lparr>heap := (heap s)(r := (heap s r)\<lparr>chatIds := xs\<rparr>), store_log := l\<rparr>) =
      inherited_keys s"
    by (simp add: inherited_keys_def user_keys_def split: option.split)
qed simp_all


text \<open>
  \<^verbatim>\<open>isUserActive\<close> is true of every key of the active map, and also of the names the
  map inherits: of \<^verbatim>\<open>constructor\<close>, for one, while the map is empty.
\<close>

lemma isUserActive_own: "obj_has (active_users s) k \<Longrightarrow> isUserActive s k"
  by (auto simp: isUserActive_def active_read_def obj_read_via_def obj_has_def obj_get_def)

lemma isUserActive_inherited_name:
  "active_users empty_state = [] \<and> isUserActive empty_state ''constructor'' \<and>
   \<not> isUserActive empty_state ''carol''"
  by (simp add: isUserActive_def active_read_def obj_read_via_def object_prototype_read_def
      object_prototype_get_def object_prototype_names_def obj_get_def empty_state_def)

section \<open>Chat count of a user\<close>

text \<open>
  Claim C10. \<^verbatim>\<open>getChatsCount\<close> reads \<^verbatim>\<open>.chatIds.length\<close> off the result of
  \<^verbatim>\<open>getActiveUser\<close> with no test in between. When some active user matches the
  identifier (by socket id, email or login id) it returns the length of the chat-id list
  of the user the lookup resolves to; when none matches, the lookup gives \<^verbatim>\<open>null\<close>
  and the property read throws a \<^verbatim>\<open>TypeError\<close> (or the lookup itself throws one, if
  something enumerable has been put on the prototype chain of the active map): in either
  case the call faults with a \<^verbatim>\<open>TypeError\<close>.
\<close>

theorem getChatsCount_faults_unless_active:
  "((\<exists>(k, r) \<in> set (active_users s). matches (Search_string x) (heap s r)) \<longrightarrow>
      (\<exists>(k, r) \<in> set (active_users s). matches (Search_string x) (heap s r) \<and>
         getActiveUser s (Search_string x) = Inr (Some r) \<and>
         getChatsCount s x = Inr (length (chatIds (heap s r))))) \<and>
   ((\<forall>(k, r) \<in> set (active_users s). \<not> matches (Search_string x) (heap s r)) \<longrightarrow>
      getActiveUser s (Search_string x) =
        (if list_all (obj_has (active_users s)) (inherited_keys s) then Inr None
         else Inl TypeError) \<and>
      getChatsCount s x = Inl TypeError)"
proof (intro conjI impI)
  assume "\<exists>(k, r) \<in> set (active_users s). matches (Search_string x) (heap s r)"
  from getActiveUser_match [OF this]
  obtain r where r: "getActiveUser s (Search_string x) = Inr (Some r)"
    by blast
  from getActiveUser_Some [OF r] obtain k where
    "(k, r) \<in> set (active_users s)" "matches (Search_string x) (heap s r)"
    by blast
  with r show "\<exists>(k, r) \<in> set (active_users s). matches (Search_string x) (heap s r) \<and>
      getActiveUser s (Search_string x) = Inr (Some r) \<and>
      getChatsCount s x = Inr (length (chatIds (heap s r)))"
    by (force simp: getChatsCount_def)
next
  assume none: "\<forall>(k, r) \<in> set (active_users s). \<not> matches (Search_string x) (heap s r)"
  from getActiveUser_no_match [OF this]
  show look: "getActiveUser s (Search_string x) =
      (if list_all (obj_has (active_users s)) (inherited_keys s) then Inr None
       else Inl TypeError)" .
  then show "getChatsCount s x = Inl TypeError"
    by (simp add: getChatsCount_def)
qed

theorem getChatsCount_faults_unless_active_witness:
  "getChatsCount chatting ''bob'' = Inr 1 \<and> getChatsCount chatting ''s1'' = Inr 1 \<and>
   getChatsCount chatting ''carol'' = Inl TypeError"
proof -
  have a: "\<exists>(k, r) \<in> set (active_users chatting). matches (Search_string ''bob'') (heap chatting r)"
    by (simp add: chatting_def alice_def bob_def)
  have b: "\<exists>(k, r) \<in> set (active_users chatting). matches (Search_string ''s1'') (heap chatting r)"
    by (simp add: chatting_def alice_def bob_def)
  have c: "\<forall>(k, r) \<in> set (active_users chatting). \<not> matches (Search_string ''carol'') (heap chatting r)"
    by (simp add: chatting_def alice_def bob_def)
  from a getChatsCount_faults_unless_active [of chatting "''bob''"]
  have "getChatsCount chatting ''bob'' = Inr 1"
    by (auto simp: chatting_def alice_def bob_def)
  moreover from b getChatsCount_faults_unless_active [of chatting "''s1''"]
  have "getChatsCount chatting ''s1'' = Inr 1"
    by (auto simp: chatting_def alice_def bob_def)
  moreover from c getChatsCount_faults_unless_active [of chatting "''carol''"]
  have "getChatsCount chatting ''carol'' = Inl TypeError"
    by blast
  ultimately show ?thesis by simp
qed

section \<open>Waiting list\<close>

text \<open>
  Claim C7 does not hold as stated: \<^verbatim>\<open>addToWaitingList\<close> never looks at the waiting
  list before it writes. With alice already waiting, a second call for the same id
  returns normally and the entry now holds the new object.
\<close>

theorem addToWaitingList_overwrites_counterexample:
  "obj_has (waiting_users one_waiting) ''alice'' \<and>
   fst (addToWaitingList ''alice'' None ''s9'' one_waiting) = Inr () \<and>
   waiting_users (snd (addToWaitingList ''alice'' None ''s9'' one_waiting)) = [(''alice'', 1)] \<and>
   socketIds (heap (snd (addToWaitingList ''alice'' None ''s9'' one_waiting)) 1) = [''s9'']"
  by (simp add: one_waiting_def addToWaitingList_def empty_state_def obj_set_def obj_define_def
      sets_prototype_def obj_has_def is_array_index_def is_digit_def Let_def)

text \<open>
  Claim C7, amended. For a derived id (the email if present, else the login id) other
  than \<^verbatim>\<open>__proto__\<close>, \<^verbatim>\<open>addToWaitingList\<close> returns normally and files a freshly built
  waiting-user record under the derived id, replacing whatever was filed under that id;
  every other entry of the waiting list, every other user object, the active users, the
  chats and the store are untouched.
\<close>

theorem addToWaitingList_inserts_or_replaces:
  "(case em of Some e \<Rightarrow> e | None \<Rightarrow> lid) \<noteq> ''__proto__'' \<Longrightarrow>
   fst (addToWaitingList lid em socket s) = Inr () \<and>
   (let key = (case em of Some e \<Rightarrow> e | None \<Rightarrow> lid);
        s' = snd (addToWaitingList lid em socket s)
    in obj_get (waiting_users s') key = Some (next_ref s) \<and>
       heap s' (next_ref s) =
         \<lparr>user_id = None, email = em, loginId = lid, socketConnections = [socket],
          socketIds = [socket], currentChatId = None, chatIds = []\<rparr> \<and>
       emailOrLoginId (heap s' (next_ref s)) = key \<and>
       set (obj_keys (waiting_users s')) = insert key (set (obj_keys (waiting_users s))) \<and>
       (\<forall>k. k \<noteq> key \<longrightarrow> obj_get (waiting_users s') k = obj_get (waiting_users s) k) \<and>
       (\<forall>r. r \<noteq> next_ref s \<longrightarrow> heap s' r = heap s r) \<and>
       active_users s' = active_users s \<and> chats s' = chats s \<and> store_log s' = store_log s)"
  by (simp add: addToWaitingList_def Let_def obj_get_set obj_keys_set sets_prototype_def
      emailOrLoginId_def split: option.split)

theorem addToWaitingList_inserts_or_replaces_witness:
  "obj_get (waiting_users (snd (addToWaitingList ''alice'' None ''s9'' one_waiting))) ''alice'' =
     Some (next_ref one_waiting) \<and>
   obj_get (waiting_users (snd (addToWaitingList ''bob'' (Some ''bob@x.org'') ''s2'' one_waiting)))
     ''bob@x.org'' = Some (next_ref one_waiting) \<and>
   obj_get (waiting_users (snd (addToWaitingList ''bob'' (Some ''bob@x.org'') ''s2'' one_waiting)))
     ''alice'' = Some 0"
proof -
  have "obj_get (waiting_users one_waiting) ''alice'' = Some 0"
    by (simp add: one_waiting_def addToWaitingList_def empty_state_def obj_set_def obj_define_def
      sets_prototype_def obj_has_def obj_get_def is_array_index_def is_digit_def Let_def)
  with addToWaitingList_inserts_or_replaces [of "''alice''" None "''s9''" one_waiting]
    addToWaitingList_inserts_or_replaces [of "''bob''" "Some ''bob@x.org''" "''s2''" one_waiting]
  show ?thesis by (simp add: Let_def)
qed

text \<open>
  Under the derived id \<^verbatim>\<open>__proto__\<close> the call returns normally as well, but files
  nothing: the new user object becomes the prototype of the waiting list.
\<close>

lemma addToWaitingList_under_proto:
  assumes "(case em of Some e \<Rightarrow> e | None \<Rightarrow> lid) = ''__proto__''"
    and "\<not> obj_has (waiting_users s) ''__proto__''"
  shows "fst (addToWaitingList lid em socket s) = Inr () \<and>
     waiting_users (snd (addToWaitingList lid em socket s)) = waiting_users s \<and>
     waiting_proto (snd (addToWaitingList lid em socket s)) = Some (next_ref s)"
  using assms by (simp add: addToWaitingList_def Let_def obj_set_def sets_prototype_def)

text \<open>
  The filing that the theorems on pairing and chat creation start from is what
  \<^verbatim>\<open>addToWaitingList\<close> builds: it holds of the empty waiting list, and a call keeps it,
  whatever the id.
\<close>

lemma addToWaitingList_keeps_filing:
  assumes wf: "stored_under_derived_id (heap s) (waiting_users s)"
    and old: "\<forall>(k, r) \<in> set (waiting_users s). r < next_ref s"
  shows "stored_under_derived_id (heap (snd (addToWaitingList lid em socket s)))
           (waiting_users (snd (addToWaitingList lid em socket s))) \<and>
     (\<forall>(k, r) \<in> set (waiting_users (snd (addToWaitingList lid em socket s))).
         r < next_ref (snd (addToWaitingList lid em socket s)))"
proof -
  define key where "key = (case em of Some e \<Rightarrow> e | None \<Rightarrow> lid)"
  define u where "u = \<lparr>user_id = None, email = em, loginId = lid, socketConnections = [socket],
               socketIds = [socket], currentChatId = None, chatIds = []\<rparr>"
  let ?s' = "snd (addToWaitingList lid em socket s)"
  have w: "waiting_users ?s' = obj_set key (next_ref s) (waiting_users s)"
    and h: "heap ?s' = (heap s)(next_ref s := u)" and n: "next_ref ?s' = Suc (next_ref s)"
    by (simp_all add: addToWaitingList_def Let_def key_def u_def)
  have ku: "emailOrLoginId u = key"
    by (simp add: emailOrLoginId_def u_def key_def split: option.split)
  have mem: "(k, r) \<in> set (waiting_users ?s') \<Longrightarrow>
      (k, r) = (key, next_ref s) \<or> (k, r) \<in> set (waiting_users s)" for k r
    using set_obj_set [of key "next_ref s" "waiting_users s"] unfolding w by blast
  have "distinct (obj_keys (waiting_users ?s'))"
    using wf unfolding w by (simp add: stored_under_derived_id_def distinct_obj_set)
  moreover have "''__proto__'' \<notin> set (obj_keys (waiting_users ?s'))"
    using wf unfolding w by (simp add: stored_under_derived_id_def obj_set_own_keys)
  moreover have "emailOrLoginId (heap ?s' r) = k \<and> r < next_ref ?s'"
    if "(k, r) \<in> set (waiting_users ?s')" for k r
  proof -
    from mem [OF that] show ?thesis
    proof
      assume "(k, r) = (key, next_ref s)"
      then show ?thesis by (simp add: h n ku)
    next
      assume a: "(k, r) \<in> set (waiting_users s)"
      with old have "r < next_ref s" by blast
      moreover from a wf have "emailOrLoginId (heap s r) = k"
        by (auto simp: stored_under_derived_id_def)
      ultimately show ?thesis by (simp add: h n)
    qed
  qed
  ultimately show ?thesis
    unfolding stored_under_derived_id_def by blast
qed

lemma empty_state_filing:
  "stored_under_derived_id (heap empty_state) (waiting_users empty_state) \<and>
   stored_under_derived_id (heap empty_state) (active_users empty_state)"
  by (simp add: stored_under_derived_id_def empty_state_def obj_keys_def)

section \<open>Picking a random pair\<close>

text \<open>
  \<^verbatim>\<open>Math.floor(Math.random() * n)\<close> is an index below \<open>n\<close>. The random number is
  taken as an exact rational in \<open>[0, 1)\<close>; every index below \<open>n\<close> arises from one.
\<close>

lemma random_index_less:
  assumes "0 \<le> x" "x < 1" "0 < n"
  shows "nat \<lfloor>x * rat_of_nat n\<rfloor> < n"
proof -
  have "x * rat_of_nat n < rat_of_nat n"
    using assms by simp
  then have "\<lfloor>x * rat_of_nat n\<rfloor> < int n"
    by (simp add: floor_less_iff)
  moreover have "0 \<le> \<lfloor>x * rat_of_nat n\<rfloor>"
    using assms by simp
  ultimately show ?thesis by linarith
qed

lemma splice1_facts:
  assumes "distinct xs" "i < length xs"
  shows "set (splice1 i xs) = set xs - {xs ! i}"
    and "Suc (length (splice1 i xs)) = length xs"
    and "distinct (splice1 i xs)"
proof -
  have xs: "xs = take i xs @ xs ! i # drop (Suc i) xs"
    using assms(2) by (rule id_take_nth_drop)
  have d: "distinct (take i xs @ xs ! i # drop (Suc i) xs)"
    using assms(1) xs by simp
  have "set xs = set (take i xs @ xs ! i # drop (Suc i) xs)"
    using xs by simp
  with d show "set (splice1 i xs) = set xs - {xs ! i}"
    unfolding splice1_def by auto
  show "Suc (length (splice1 i xs)) = length xs"
    using assms(2) by (simp add: splice1_def)
  from d show "distinct (splice1 i xs)"
    unfolding splice1_def by simp
qed

lemma pick_user_in_range:
  assumes "i = nat \<lfloor>x * rat_of_nat (length ids)\<rfloor>" "i < length ids"
    and "obj_get (waiting_users s) (ids ! i) = Some r"
  shows "pick_user x (ids, paired, s) =
           (splice1 i ids, paired @ [Some r], delWaitingUser (ids ! i) s)"
  using assms by (simp add: pick_user_def Let_def)

lemma getRandomPair_picks:
  assumes d: "distinct (obj_keys (waiting_users s))"
    and n: "2 \<le> length (obj_keys (waiting_users s))"
    and x0: "0 \<le> random 0" "random 0 < 1"
    and x1: "0 \<le> random 1" "random 1 < 1"
  shows "\<exists>k1 k2 r1 r2. k1 \<noteq> k2 \<and>
           obj_get (waiting_users s) k1 = Some r1 \<and> obj_get (waiting_users s) k2 = Some r2 \<and>
           getRandomPairFromWaitingList random s =
             ([Some r1, Some r2],
              s\<lparr>waiting_users := obj_delete k2 (obj_delete k1 (waiting_users s))\<rparr>)"
proof -
  define ids where "ids = obj_keys (waiting_users s)"
  define i0 where "i0 = nat \<lfloor>random 0 * rat_of_nat (length ids)\<rfloor>"
  have n': "2 \<le> length ids" using n by (simp add: ids_def)
  have i0: "i0 < length ids"
    unfolding i0_def using x0 n' by (intro random_index_less) auto
  define k1 where "k1 = ids ! i0"
  have k1: "k1 \<in> set ids" using i0 by (simp add: k1_def)
  then obtain r1 where r1: "obj_get (waiting_users s) k1 = Some r1"
    using obj_get_None [of "waiting_users s" k1] by (auto simp: ids_def)
  define ids' where "ids' = splice1 i0 ids"
  have step0: "pick_user (random 0) (ids, [], s) = (ids', [Some r1], delWaitingUser k1 s)"
    using pick_user_in_range [OF i0_def i0, of s r1 "[]"] r1 by (simp add: k1_def ids'_def)
  have dids: "distinct ids" using d by (simp add: ids_def)
  have set': "set ids' = set ids - {k1}" and len': "Suc (length ids') = length ids"
    using splice1_facts [OF dids i0] by (simp_all add: ids'_def k1_def)
  define i1 where "i1 = nat \<lfloor>random 1 * rat_of_nat (length ids')\<rfloor>"
  have i1: "i1 < length ids'"
    unfolding i1_def using x1 n' len' by (intro random_index_less) auto
  define k2 where "k2 = ids' ! i1"
  have "k2 \<in> set ids'" using i1 by (simp add: k2_def)
  with set' have k2: "k2 \<in> set ids" and ne: "k1 \<noteq> k2" by auto
  from k2 obtain r2 where r2: "obj_get (waiting_users s) k2 = Some r2"
    using obj_get_None [of "waiting_users s" k2] by (auto simp: ids_def)
  have r2': "obj_get (waiting_users (delWaitingUser k1 s)) k2 = Some r2"
    using r2 ne by (simp add: delWaitingUser_def obj_get_delete)
  have step1: "pick_user (random 1) (ids', [Some r1], delWaitingUser k1 s) =
      (splice1 i1 ids', [Some r1, Some r2], delWaitingUser k2 (delWaitingUser k1 s))"
    using pick_user_in_range [OF i1_def i1, of "delWaitingUser k1 s" r2 "[Some r1]"] r2'
    by (simp add: k2_def)
  have "[0..<2] = [0, Suc 0]" by (simp add: upt_rec)
  then have "getRandomPairFromWaitingList random s =
      ([Some r1, Some r2], delWaitingUser k2 (delWaitingUser k1 s))"
    using step0 step1 by (simp add: getRandomPairFromWaitingList_def ids_def)
  with ne r1 r2 show ?thesis
    by (auto simp: delWaitingUser_def)
qed

text \<open>
  Claim C1. From a waiting list of at least two users, each filed under its derived id,
  \<^verbatim>\<open>getRandomPairFromWaitingList\<close> returns two users that are distinct objects with
  distinct ids; both ids are gone from the waiting list afterwards, nothing else is, and
  the list is shorter by exactly two.
\<close>

theorem getRandomPair_two_distinct_removed:
  assumes "stored_under_derived_id (heap s) (waiting_users s)"
    and "2 \<le> getWaitingUserLen s"
    and "\<forall>i<2. 0 \<le> random i \<and> random i < 1"
  shows "\<exists>r1 r2 s'. getRandomPairFromWaitingList random s = ([Some r1, Some r2], s') \<and>
      r1 \<noteq> r2 \<and> emailOrLoginId (heap s r1) \<noteq> emailOrLoginId (heap s r2) \<and>
      obj_get (waiting_users s) (emailOrLoginId (heap s r1)) = Some r1 \<and>
      obj_get (waiting_users s) (emailOrLoginId (heap s r2)) = Some r2 \<and>
      \<not> obj_has (waiting_users s') (emailOrLoginId (heap s r1)) \<and>
      \<not> obj_has (waiting_users s') (emailOrLoginId (heap s r2)) \<and>
      getWaitingUserLen s' + 2 = getWaitingUserLen s \<and>
      set (obj_keys (waiting_users s')) =
        set (obj_keys (waiting_users s)) - {emailOrLoginId (heap s r1), emailOrLoginId (heap s r2)} \<and>
      heap s' = heap s \<and> active_users s' = active_users s"
proof -
  let ?w = "waiting_users s"
  have d: "distinct (obj_keys ?w)"
    using assms(1) by (simp add: stored_under_derived_id_def)
  have n: "2 \<le> length (obj_keys ?w)"
    using assms(2) by (simp add: getWaitingUserLen_def)
  from assms(3) have x: "0 \<le> random 0" "random 0 < 1" "0 \<le> random 1" "random 1 < 1"
    by simp_all
  from getRandomPair_picks [OF d n x] obtain k1 k2 r1 r2 where
    ne: "k1 \<noteq> k2" and r1: "obj_get ?w k1 = Some r1" and r2: "obj_get ?w k2 = Some r2"
    and res: "getRandomPairFromWaitingList random s =
      ([Some r1, Some r2], s\<lparr>waiting_users := obj_delete k2 (obj_delete k1 ?w)\<rparr>)"
    by blast
  note ids = stored_under_derived_id_distinct_refs [OF assms(1) r1 r2]
  have k1: "k1 \<in> set (obj_keys ?w)" and k2: "k2 \<in> set (obj_keys (obj_delete k1 ?w))"
    using r1 r2 ne obj_get_None [of ?w k1] obj_get_None [of "obj_delete k1 ?w" k2]
    by (simp_all add: obj_get_delete)
  have "Suc (length (obj_delete k1 ?w)) = length ?w"
    using d k1 by (rule length_obj_delete)
  moreover have "Suc (length (obj_delete k2 (obj_delete k1 ?w))) = length (obj_delete k1 ?w)"
    using distinct_obj_delete [OF d] k2 by (rule length_obj_delete)
  ultimately have len: "length (obj_delete k2 (obj_delete k1 ?w)) + 2 = length ?w"
    by simp
  have keys: "set (obj_keys (obj_delete k2 (obj_delete k1 ?w))) = set (obj_keys ?w) - {k1, k2}"
    by (auto simp: obj_keys_delete)
  show ?thesis
    using res ne r1 r2 ids len keys
    by (simp add: obj_has_delete getWaitingUserLen_def obj_keys_def)
qed

theorem getRandomPair_two_distinct_removed_witness:
  "stored_under_derived_id (heap two_waiting) (waiting_users two_waiting) \<and>
   2 \<le> getWaitingUserLen two_waiting \<and>
   (\<exists>r1 r2 s'. getRandomPairFromWaitingList (\<lambda>i. 1 / 2) two_waiting = ([Some r1, Some r2], s') \<and>
      r1 \<noteq> r2 \<and> getWaitingUserLen s' + 2 = getWaitingUserLen two_waiting)"
proof -
  have a: "stored_under_derived_id (heap two_waiting) (waiting_users two_waiting)"
    by (simp add: stored_under_derived_id_def two_waiting_def obj_keys_def emailOrLoginId_def
        alice_def bob_def)
  have b: "2 \<le> getWaitingUserLen two_waiting"
    by (simp add: getWaitingUserLen_def two_waiting_def obj_keys_def)
  have c: "\<forall>i<2. 0 \<le> (\<lambda>i::nat. 1 / 2 :: rat) i \<and> (\<lambda>i::nat. 1 / 2 :: rat) i < 1"
    by simp
  from getRandomPair_two_distinct_removed [OF a b c] a b show ?thesis
    by blast
qed

section \<open>Creating a chat\<close>

lemma emailOrLoginId_update [simp]:
  "emailOrLoginId (u\<lparr>user_id := a\<rparr>) = emailOrLoginId u"
  "emailOrLoginId (u\<lparr>currentChatId := b\<rparr>) = emailOrLoginId u"
  "emailOrLoginId (u\<lparr>chatIds := c\<rparr>) = emailOrLoginId u"
  by (simp_all add: emailOrLoginId_def split: option.split)

lemma createChat_users_accepted:
  assumes "\<not> rejects db
    (store_log s @ [ActiveUser_create (email (heap s r)) (loginId (heap s r)) chatId])"
  shows "createChat_users db chatId (Some r # users) ids s =
    createChat_users db chatId users
      (ids @ [created_user_id db
         (store_log s @ [ActiveUser_create (email (heap s r)) (loginId (heap s r)) chatId])])
      (promote db chatId r s)"
  using assms by (simp add: call_store_def addActiveUser_def promote_def Let_def)

lemma promote_fields:
  "waiting_users (promote db chatId r s) = waiting_users s"
  "chats (promote db chatId r s) = chats s"
  "next_ref (promote db chatId r s) = next_ref s"
  "active_users (promote db chatId r s) =
     obj_set (emailOrLoginId (heap s r)) r (active_users s)"
  "active_proto (promote db chatId r s) =
     (if sets_prototype (active_users s) (emailOrLoginId (heap s r)) then Some r
      else active_proto s)"
  "prototype_message (promote db chatId r s) = prototype_message s"
  "heap (promote db chatId r s) r' =
     (if r' = r then (heap s r)\<lparr>user_id := Some (created_user_id db
          (store_log s @ [ActiveUser_create (email (heap s r)) (loginId (heap s r)) chatId])),
        currentChatId := Some chatId, chatIds := chatIds (heap s r) @ [chatId]\<rparr>
      else heap s r')"
  by (simp_all add: promote_def Let_def)

lemma promote_emailOrLoginId [simp]:
  "emailOrLoginId (heap (promote db chatId r s) r') = emailOrLoginId (heap s r')"
  by (simp add: promote_fields)

lemma fold_promote_emailOrLoginId [simp]:
  "emailOrLoginId (heap (fold (promote db chatId) rs s) r') = emailOrLoginId (heap s r')"
  by (induction rs arbitrary: s) simp_all

lemma fold_promote_unchanged:
  "waiting_users (fold (promote db chatId) rs s) = waiting_users s"
  "chats (fold (promote db chatId) rs s) = chats s"
  "next_ref (fold (promote db chatId) rs s) = next_ref s"
  by (induction rs arbitrary: s) (simp_all add: promote_fields)

lemma fold_promote_other:
  "r \<notin> set rs \<Longrightarrow> heap (fold (promote db chatId) rs s) r = heap s r"
  by (induction rs arbitrary: s) (simp_all add: promote_fields)

lemma fold_promote_member:
  "distinct rs \<Longrightarrow> r \<in> set rs \<Longrightarrow>
     chatIds (heap (fold (promote db chatId) rs s) r) = chatIds (heap s r) @ [chatId] \<and>
     currentChatId (heap (fold (promote db chatId) rs s) r) = Some chatId \<and>
     user_id (heap (fold (promote db chatId) rs s) r) \<noteq> None"
proof (induction rs arbitrary: s)
  case Nil
  then show ?case by simp
next
  case (Cons a rs)
  show ?case
  proof (cases "r = a")
    case True
    with Cons.prems have "r \<notin> set rs" by simp
    with True show ?thesis
      by (simp add: fold_promote_other promote_fields)
  next
    case False
    with Cons.prems have "distinct rs" "r \<in> set rs" by simp_all
    from Cons.IH [OF this, of "promote db chatId a s"] False show ?thesis
      by (simp add: promote_fields)
  qed
qed

lemma fold_promote_active_other:
  "k \<notin> (\<lambda>r. emailOrLoginId (heap s r)) ` set rs \<Longrightarrow>
     obj_get (active_users (fold (promote db chatId) rs s)) k = obj_get (active_users s) k"
proof (induction rs arbitrary: s)
  case Nil
  then show ?case by simp
next
  case (Cons a rs)
  from Cons.prems have "k \<notin> (\<lambda>r. emailOrLoginId (heap (promote db chatId a s) r)) ` set rs"
    by simp
  from Cons.IH [OF this] Cons.prems show ?case
    by (simp add: promote_fields obj_get_set)
qed

lemma fold_promote_active_member:
  "distinct (map (\<lambda>r. emailOrLoginId (heap s r)) rs) \<Longrightarrow> r \<in> set rs \<Longrightarrow>
   emailOrLoginId (heap s r) \<noteq> ''__proto__'' \<Longrightarrow>
     obj_get (active_users (fold (promote db chatId) rs s)) (emailOrLoginId (heap s r)) = Some r"
proof (induction rs arbitrary: s)
  case Nil
  then show ?case by simp
next
  case (Cons a rs)
  show ?case
  proof (cases "r = a")
    case True
    with Cons.prems
    have "emailOrLoginId (heap s r) \<notin>
        (\<lambda>r. emailOrLoginId (heap (promote db chatId a s) r)) ` set rs"
      by auto
    from fold_promote_active_other [OF this] True Cons.prems(3) show ?thesis
      by (simp add: promote_fields obj_get_set sets_prototype_def)
  next
    case False
    with Cons.prems have "distinct (map (\<lambda>r. emailOrLoginId (heap (promote db chatId a s) r)) rs)"
      and "r \<in> set rs" and "emailOrLoginId (heap (promote db chatId a s) r) \<noteq> ''__proto__''"
      by simp_all
    from Cons.IH [OF this] show ?thesis by simp
  qed
qed

lemma createChat_users_all_accepted:
  assumes "\<forall>log. \<not> rejects db log"
  shows "\<exists>ids'. createChat_users db chatId (map Some rs) ids s =
           (Inr ids', fold (promote db chatId) rs s)"
proof (induction rs arbitrary: ids s)
  case Nil
  show ?case by simp
next
  case (Cons r rs)
  from assms have "\<not> rejects db
      (store_log s @ [ActiveUser_create (email (heap s r)) (loginId (heap s r)) chatId])"
    by blast
  from createChat_users_accepted [OF this] Cons.IH show ?case by simp
qed

lemma userIds_of_refs:
  "concat (map (case_option [] (\<lambda>r. [f r]) \<circ> Some) rs) = map f rs"
  by (induction rs) simp_all

lemma createChat_accepted:
  assumes ok: "\<forall>log. \<not> rejects db log"
  shows "\<exists>c s'. createChat db chatId (map Some rs) s = (Inr c, s') \<and>
      heap s' = heap (fold (promote db chatId) rs s) \<and>
      active_users s' = active_users (fold (promote db chatId) rs s) \<and>
      waiting_users s' = waiting_users s \<and>
      obj_get (chats s') chatId = Some c \<and>
      (\<forall>c'. c' \<noteq> chatId \<longrightarrow> obj_get (chats s') c' = obj_get (chats s) c') \<and>
      userIds c = map (\<lambda>r. emailOrLoginId (heap s r)) rs"
proof -
  from createChat_users_all_accepted [OF ok, of chatId rs "[]" s] obtain ids' where
    "createChat_users db chatId (map Some rs) [] s = (Inr ids', fold (promote db chatId) rs s)"
    by blast
  with ok show ?thesis
    by (simp add: createChat_def call_store_def Let_def userIds_of_refs obj_get_define
        fold_promote_unchanged)
qed

lemma two_waiting_reached:
  "snd (addToWaitingList ''bob'' (Some ''bob@x.org'') ''s2''
     (snd (addToWaitingList ''alice'' None ''s1'' empty_state))) = two_waiting"
  by (simp add: addToWaitingList_def empty_state_def two_waiting_def alice_def bob_def
      obj_set_def obj_define_def sets_prototype_def obj_has_def is_array_index_def is_digit_def
      Let_def)

lemma pair_of_two_waiting:
  "getRandomPairFromWaitingList (\<lambda>i. 0) two_waiting =
     ([Some 0, Some 1], two_waiting\<lparr>waiting_users := []\<rparr>)"
  by (simp add: getRandomPairFromWaitingList_def pick_user_def two_waiting_def upt_rec
      obj_keys_def obj_get_def splice1_def delWaitingUser_def obj_delete_def)

text \<open>
  Claim C2. Take a waiting list of at least two users in which every user is filed
  under its derived id and has no chat yet, as \<^verbatim>\<open>addToWaitingList\<close> leaves them, and a
  store that resolves its calls. For the pair that \<^verbatim>\<open>getRandomPairFromWaitingList\<close>
  returns, \<^verbatim>\<open>createChat\<close> completes; afterwards both users are in the active map under
  their derived ids, each has exactly the new chat in \<^verbatim>\<open>chatIds\<close> and as
  \<^verbatim>\<open>currentChatId\<close>, and the chats cache holds under the new id the returned chat,
  whose members are the two derived ids.
\<close>

theorem createChat_of_waiting_pair:
  assumes wf: "stored_under_derived_id (heap s0) (waiting_users s0)"
    and fresh: "\<forall>(k, r) \<in> set (waiting_users s0). chatIds (heap s0 r) = []"
    and n: "2 \<le> getWaitingUserLen s0"
    and rnd: "\<forall>i<2. 0 \<le> random i \<and> random i < 1"
    and ok: "\<forall>log. \<not> rejects db log"
  shows "\<exists>r1 r2 s c s'.
      getRandomPairFromWaitingList random s0 = ([Some r1, Some r2], s) \<and>
      createChat db chatId [Some r1, Some r2] s = (Inr c, s') \<and>
      obj_get (active_users s') (emailOrLoginId (heap s' r1)) = Some r1 \<and>
      obj_get (active_users s') (emailOrLoginId (heap s' r2)) = Some r2 \<and>
      chatIds (heap s' r1) = [chatId] \<and> chatIds (heap s' r2) = [chatId] \<and>
      currentChatId (heap s' r1) = Some chatId \<and>
      currentChatId (heap s' r2) = Some chatId \<and>
      obj_get (chats s') chatId = Some c \<and>
      userIds c = [emailOrLoginId (heap s' r1), emailOrLoginId (heap s' r2)] \<and>
      \<not> obj_has (waiting_users s') (emailOrLoginId (heap s' r1)) \<and>
      \<not> obj_has (waiting_users s') (emailOrLoginId (heap s' r2))"
proof -
  let ?w = "waiting_users s0"
  have d: "distinct (obj_keys ?w)"
    using wf by (simp add: stored_under_derived_id_def)
  have n': "2 \<le> length (obj_keys ?w)"
    using n by (simp add: getWaitingUserLen_def)
  from rnd have x: "0 \<le> random 0" "random 0 < 1" "0 \<le> random 1" "random 1 < 1"
    by simp_all
  from getRandomPair_picks [OF d n' x] obtain k1 k2 r1 r2 where
    ne: "k1 \<noteq> k2" and r1: "obj_get ?w k1 = Some r1" and r2: "obj_get ?w k2 = Some r2"
    and res: "getRandomPairFromWaitingList random s0 =
      ([Some r1, Some r2], s0\<lparr>waiting_users := obj_delete k2 (obj_delete k1 ?w)\<rparr>)"
    by blast
  define s where "s = s0\<lparr>waiting_users := obj_delete k2 (obj_delete k1 ?w)\<rparr>"
  have hs: "heap s = heap s0" by (simp add: s_def)
  note ids = stored_under_derived_id_distinct_refs [OF wf r1 r2]
  have rne: "r1 \<noteq> r2" using ids(3) ne by simp
  have np: "k1 \<noteq> ''__proto__''" "k2 \<noteq> ''__proto__''"
    using wf r1 r2 obj_get_None [of ?w k1] obj_get_None [of ?w k2]
    by (auto simp: stored_under_derived_id_def)
  have e1: "chatIds (heap s0 r1) = []" and e2: "chatIds (heap s0 r2) = []"
    using fresh obj_get_Some_mem [OF r1] obj_get_Some_mem [OF r2] by auto
  from createChat_accepted [OF ok, of chatId "[r1, r2]" s] obtain c s' where
    cc: "createChat db chatId [Some r1, Some r2] s = (Inr c, s')"
    and h: "heap s' = heap (fold (promote db chatId) [r1, r2] s)"
    and a: "active_users s' = active_users (fold (promote db chatId) [r1, r2] s)"
    and w: "waiting_users s' = waiting_users s"
    and c: "obj_get (chats s') chatId = Some c"
    and u: "userIds c = map (\<lambda>r. emailOrLoginId (heap s r)) [r1, r2]"
    by auto
  have dr: "distinct [r1, r2]" using rne by simp
  have dk: "distinct (map (\<lambda>r. emailOrLoginId (heap s r)) [r1, r2])"
    using ids ne by (simp add: hs)
  have m1: "chatIds (heap s' r1) = [chatId] \<and> currentChatId (heap s' r1) = Some chatId"
    using fold_promote_member [OF dr, of r1 db chatId s] e1 by (simp only: h hs) simp
  have m2: "chatIds (heap s' r2) = [chatId] \<and> currentChatId (heap s' r2) = Some chatId"
    using fold_promote_member [OF dr, of r2 db chatId s] e2 by (simp only: h hs) simp
  have i1: "emailOrLoginId (heap s' r1) = k1" and i2: "emailOrLoginId (heap s' r2) = k2"
    using ids by (simp_all only: h fold_promote_emailOrLoginId hs)
  have a1: "obj_get (active_users s') k1 = Some r1"
    using fold_promote_active_member [OF dk, of r1 db chatId] ids np by (simp only: a hs) simp
  have a2: "obj_get (active_users s') k2 = Some r2"
    using fold_promote_active_member [OF dk, of r2 db chatId] ids np by (simp only: a hs) simp
  have gone: "\<not> obj_has (waiting_users s') k1" "\<not> obj_has (waiting_users s') k2"
    by (simp_all add: w s_def obj_has_delete)
  from u ids have u': "userIds c = [k1, k2]" by (simp add: hs)
  have res': "getRandomPairFromWaitingList random s0 = ([Some r1, Some r2], s)"
    using res by (simp add: s_def)
  show ?thesis
    by (intro exI [of _ r1] exI [of _ r2] exI [of _ s] exI [of _ c] exI [of _ s'])
      (simp add: res' cc m1 m2 a1 a2 c u' gone i1 i2)
qed

theorem createChat_of_waiting_pair_witness:
  "stored_under_derived_id (heap two_waiting) (waiting_users two_waiting) \<and>
   2 \<le> getWaitingUserLen two_waiting \<and>
   (\<exists>c s'. createChat accepting_store ''c1'' [Some 0, Some 1]
              (two_waiting\<lparr>waiting_users := []\<rparr>) = (Inr c, s') \<and>
      obj_get (active_users s') (emailOrLoginId (heap s' 0)) = Some 0 \<and>
      obj_get (active_users s') (emailOrLoginId (heap s' 1)) = Some 1 \<and>
      chatIds (heap s' 0) = [''c1''] \<and> chatIds (heap s' 1) = [''c1''] \<and>
      currentChatId (heap s' 0) = Some ''c1'' \<and> currentChatId (heap s' 1) = Some ''c1'' \<and>
      obj_get (chats s') ''c1'' = Some c \<and>
      userIds c = [emailOrLoginId (heap s' 0), emailOrLoginId (heap s' 1)])"
proof -
  have a: "stored_under_derived_id (heap two_waiting) (waiting_users two_waiting)"
    by (simp add: stored_under_derived_id_def two_waiting_def obj_keys_def emailOrLoginId_def
        alice_def bob_def)
  have b: "\<forall>(k, r) \<in> set (waiting_users two_waiting). chatIds (heap two_waiting r) = []"
    by (simp add: two_waiting_def)
  have c: "2 \<le> getWaitingUserLen two_waiting"
    by (simp add: getWaitingUserLen_def two_waiting_def obj_keys_def)
  have d: "\<forall>i<2. 0 \<le> (\<lambda>i::nat. 0 :: rat) i \<and> (\<lambda>i::nat. 0 :: rat) i < 1"
    by simp
  have e: "\<forall>log. \<not> rejects accepting_store log"
    by (simp add: accepting_store_def)
  from createChat_of_waiting_pair [OF a b c d e, of "''c1''"] a c show ?thesis
    unfolding pair_of_two_waiting by auto
qed

text \<open>The example states are what the operations make of the empty caches.\<close>

lemma not_array_index:
  "\<not> is_array_index ''al@x.org''" "\<not> is_array_index ''carol''"
  "\<not> is_array_index ''alice''" "\<not> is_array_index ''bob@x.org''"
  "\<not> is_array_index ''c1''" "\<not> is_array_index ''c2''"
  by (simp_all add: is_array_index_def is_digit_def)

lemma accepting_store_accepts: "\<not> rejects accepting_store calls"
  by (simp add: accepting_store_def)

lemmas trace_eval = empty_state_def
  addToWaitingList_def getRandomPairFromWaitingList_def pick_user_def delWaitingUser_def
  createChat_def createChat_users_accepted accepting_store_accepts promote_def call_store_def
  emailOrLoginId_def obj_set_def obj_define_def sets_prototype_def obj_has_def obj_get_def
  obj_delete_def obj_keys_def splice1_def not_array_index upt_rec Let_def

lemma after_pairing_reached: "fold (perform accepting_store) pairing empty_state = after_pairing"
  apply (simp add: pairing_def after_pairing_def trace_eval del: createChat_users.simps(3))
  apply (simp add: accepting_store_def fun_eq_iff)
  done


section \<open>Messages\<close>

text \<open>
  What the two guards of \<^verbatim>\<open>addMessage\<close> do when they apply: a sender id that
  resolves to nobody, or a \<^verbatim>\<open>chats[chatId]\<close> that is falsy, gives \<^verbatim>\<open>null\<close> with
  the state as before.
\<close>

lemma addMessage_guards:
  assumes "getActiveUser s (Search_string (new_senderId m)) = Inr None \<or>
     (\<exists>r. getActiveUser s (Search_string (new_senderId m)) = Inr (Some r)) \<and>
     \<not> truthy (obj_read (prototype_message s) (chats s) chatId)"
  shows "addMessage db chatId m s = (Inr None, s)"
  using assms by (auto simp: addMessage_def)

text \<open>
  Claim C4 against the code. The guard on the chat (line 242) tests the truthiness of
  \<^verbatim>\<open>chats[chatId]\<close>, and \<^verbatim>\<open>chats\<close> inherits the members of \<^verbatim>\<open>Object.prototype\<close>.
  After the pairing of alice and bob the chats cache has no entry \<^verbatim>\<open>toString\<close>. For
  that chat id and the active sender alice, \<^verbatim>\<open>addMessage\<close> passes the guard, calls
  \<^verbatim>\<open>Message.create\<close> and \<^verbatim>\<open>Chat.updateOne\<close>, and then throws a \<^verbatim>\<open>TypeError\<close> at
  the assignment into the cache, where the claim has it return \<^verbatim>\<open>null\<close> without a
  store write.
\<close>

theorem addMessage_passes_guard_on_inherited_name:
  "getActiveUser (fold (perform accepting_store) pairing empty_state) (Search_string ''alice'') =
     Inr (Some 0) \<and>
   \<not> obj_has (chats (fold (perform accepting_store) pairing empty_state)) ''toString'' \<and>
   addMessage accepting_store ''toString'' (greeting ''alice'')
       (fold (perform accepting_store) pairing empty_state) =
     (Inl TypeError,
      (fold (perform accepting_store) pairing empty_state)
        \<lparr>store_log := store_log (fold (perform accepting_store) pairing empty_state) @
           [Message_create ''hi'' (Some ''u'') Message_type ''t2'',
            Chat_updateOne_push ''toString'' ''mmmm'']\<rparr>)"
  unfolding after_pairing_reached
  by (simp add: addMessage_def getActiveUser_def inherited_keys_def after_pairing_def greeting_def
      accepting_store_def call_store_def obj_read_def object_prototype_read_def
      object_prototype_get_def object_prototype_names_def obj_has_def obj_get_def Let_def)

text \<open>
  Claim C5 against the code. The cached message is annotated with the \<^verbatim>\<open>senderId\<close>
  the caller passed (line 255), which \<^verbatim>\<open>getActiveUser\<close> also matches against login ids
  and socket ids, and not with the \<^verbatim>\<open>emailOrLoginId\<close> of the sender it resolved, as
  \<^verbatim>\<open>init\<close> does for the same cache (lines 70-73). After the pairing of alice and bob,
  bob's derived id is his email; a message sent under his login id is cached and
  returned with the login id.
\<close>

theorem addMessage_annotates_supplied_id:
  "getActiveUser (fold (perform accepting_store) pairing empty_state) (Search_string ''bob'') =
     Inr (Some 1) \<and>
   emailOrLoginId (heap (fold (perform accepting_store) pairing empty_state) 1) = ''bob@x.org'' \<and>
   fst (addMessage accepting_store ''c1'' (greeting ''bob'')
          (fold (perform accepting_store) pairing empty_state)) =
     Inr (Some \<lparr>msg_id = ''mmmm'', message = ''hi'', senderId = ''bob'', time = ''t2'',
                 mtype = Message_type\<rparr>) \<and>
   map_option (\<lambda>c. obj_get (messages c) ''mmmm'')
     (obj_get (chats (snd (addMessage accepting_store ''c1'' (greeting ''bob'')
          (fold (perform accepting_store) pairing empty_state)))) ''c1'') =
     Some (Some \<lparr>msg_id = ''mmmm'', message = ''hi'', senderId = ''bob'', time = ''t2'',
                  mtype = Message_type\<rparr>)"
  unfolding after_pairing_reached
  by (simp add: addMessage_def getActiveUser_def inherited_keys_def after_pairing_def greeting_def
      accepting_store_def call_store_def obj_read_def obj_define_def obj_has_def obj_get_def
      emailOrLoginId_def not_array_index is_array_index_def is_digit_def Let_def)

text \<open>
  What the guards of \<^verbatim>\<open>editMessage\<close> do when they apply, and what a rejected update
  leaves: \<^verbatim>\<open>false\<close> with the state as before when \<^verbatim>\<open>chats[chatId]\<close> or
  \<^verbatim>\<open>messages[id]\<close> reads as \<^verbatim>\<open>undefined\<close>; and no \<^verbatim>\<open>true\<close>, with every cache and
  user object as before, when the store rejects.
\<close>

lemma editMessage_guards:
  assumes "obj_read (prototype_message s) (chats s) chatId = Undefined \<or>
     (\<exists>c. obj_read (prototype_message s) (chats s) chatId = Own c \<and>
          obj_read (prototype_message s) (messages c) mid = Undefined)"
  shows "editMessage db chatId mid txt s = (Inr False, s)"
  using assms by (auto simp: editMessage_def)

lemma editMessage_rejected:
  assumes "rejects db (store_log s @ [Message_updateOne_set mid txt])"
  shows "fst (editMessage db chatId mid txt s) \<noteq> Inr True \<and>
     chats (snd (editMessage db chatId mid txt s)) = chats s \<and>
     heap (snd (editMessage db chatId mid txt s)) = heap s \<and>
     waiting_users (snd (editMessage db chatId mid txt s)) = waiting_users s \<and>
     active_users (snd (editMessage db chatId mid txt s)) = active_users s \<and>
     prototype_message (snd (editMessage db chatId mid txt s)) = prototype_message s"
  using assms by (auto simp: editMessage_def call_store_def Let_def split: property.splits)

text \<open>
  Claim C6 against the code. Both guards of \<^verbatim>\<open>editMessage\<close> (lines 293 and 297) test
  truthiness, and the chats cache and every message table inherit the members of
  \<^verbatim>\<open>Object.prototype\<close>. After the pairing of alice and bob, chat \<open>c1\<close> has no message.
  For the message id \<^verbatim>\<open>toString\<close>, \<^verbatim>\<open>editMessage\<close> passes both guards, issues
  \<^verbatim>\<open>Message.updateOne\<close> and returns \<^verbatim>\<open>true\<close>; for the chat id \<^verbatim>\<open>toString\<close>, which
  is not in the chats cache, the second guard throws a \<^verbatim>\<open>TypeError\<close> outside the
  \<^verbatim>\<open>try\<close>. The claim has both calls return failure.
\<close>

theorem editMessage_passes_guards_on_inherited_names:
  "map_option messages (obj_get (chats (fold (perform accepting_store) pairing empty_state)) ''c1'') =
     Some [] \<and>
   editMessage accepting_store ''c1'' ''toString'' ''bye''
       (fold (perform accepting_store) pairing empty_state) =
     (Inr True,
      (fold (perform accepting_store) pairing empty_state)
        \<lparr>store_log := store_log (fold (perform accepting_store) pairing empty_state) @
           [Message_updateOne_set ''toString'' ''bye'']\<rparr>) \<and>
   \<not> obj_has (chats (fold (perform accepting_store) pairing empty_state)) ''toString'' \<and>
   editMessage accepting_store ''toString'' ''m1'' ''bye''
       (fold (perform accepting_store) pairing empty_state) =
     (Inl TypeError, fold (perform accepting_store) pairing empty_state)"
  unfolding after_pairing_reached
  by (simp add: editMessage_def after_pairing_def accepting_store_def call_store_def obj_read_def
      object_prototype_read_def object_prototype_get_def object_prototype_names_def obj_has_def
      obj_get_def Let_def)

text \<open>
  With the message id \<^verbatim>\<open>__proto__\<close> the assignment of line 304 lands on
  \<^verbatim>\<open>Object.prototype\<close>. From then on every object inherits an enumerable property
  \<^verbatim>\<open>message\<close>, and a lookup in the active map that matches no user throws instead of
  returning \<^verbatim>\<open>null\<close>.
\<close>

lemma editMessage_writes_object_prototype:
  "prototype_message (snd (editMessage accepting_store ''c1'' ''__proto__'' ''bye'' after_pairing)) =
     Some ''bye'' \<and>
   getActiveUser after_pairing (Search_string ''carol'') = Inr None \<and>
   getActiveUser (snd (editMessage accepting_store ''c1'' ''__proto__'' ''bye'' after_pairing))
     (Search_string ''carol'') = Inl TypeError"
  by (simp add: editMessage_def after_pairing_def accepting_store_def call_store_def obj_read_def
      object_prototype_read_def object_prototype_get_def object_prototype_names_def obj_has_def
      obj_get_def getActiveUser_def inherited_keys_def Let_def)

section \<open>Closing a chat\<close>



















text \<open>
  With an enumerable property on the prototype chain of the active map, a member that is
  no longer active makes \<^verbatim>\<open>closeChat\<close> throw where it would be passed over: after the
  pairing, alice is removed from the active map and \<^verbatim>\<open>editMessage\<close> is given the
  message id \<^verbatim>\<open>__proto__\<close>; closing the chat then ends in a \<^verbatim>\<open>TypeError\<close>.
\<close>

lemma closeChat_throws_on_inherited_key:
  "fst (closeChat accepting_store ''c1''
     (snd (editMessage accepting_store ''c1'' ''__proto__'' ''bye''
        (snd (delActiveUser accepting_store 0 after_pairing))))) = Inl TypeError"
  by (simp add: closeChat_def closeChat_users.simps call_store_def getChat_def obj_read_def
      object_prototype_read_def object_prototype_get_def object_prototype_names_def
      obj_get_def after_pairing_def accepting_store_def getActiveUser_def inherited_keys_def
      editMessage_def delActiveUser_def obj_has_def
      obj_keys_def obj_delete_def emailOrLoginId_def Let_def)

section \<open>Waiting and active users\<close>

lemma createChat_users_keys:
  "createChat_users db chatId users ids s = (res, s') \<Longrightarrow>
     waiting_users s' = waiting_users s \<and>
     (\<forall>r. emailOrLoginId (heap s' r) = emailOrLoginId (heap s r)) \<and>
     set (obj_keys (active_users s')) \<subseteq>
       set (obj_keys (active_users s)) \<union> {emailOrLoginId (heap s r) | r. Some r \<in> set users}"
proof (induction users arbitrary: ids s)
  case Nil
  then show ?case by auto
next
  case (Cons x users)
  show ?case
  proof (cases x)
    case None
    with Cons.prems show ?thesis by auto
  next
    case (Some r)
    let ?call = "ActiveUser_create (email (heap s r)) (loginId (heap s r)) chatId"
    show ?thesis
    proof (cases "rejects db (store_log s @ [?call])")
      case True
      with Cons.prems Some show ?thesis
        by (auto simp: call_store_def Let_def)
    next
      case False
      from createChat_users_accepted [OF False] Cons.prems Some
      have run: "createChat_users db chatId users
          (ids @ [created_user_id db (store_log s @ [?call])]) (promote db chatId r s) = (res, s')"
        by simp
      from Cons.IH [OF run] obj_keys_set_subset [of "emailOrLoginId (heap s r)" r "active_users s"]
      have "waiting_users s' = waiting_users s"
        and "\<forall>r'. emailOrLoginId (heap s' r') = emailOrLoginId (heap s r')"
        and "set (obj_keys (active_users s')) \<subseteq>
          insert (emailOrLoginId (heap s r)) (set (obj_keys (active_users s))) \<union>
            {emailOrLoginId (heap s r') | r'. Some r' \<in> set users}"
        by (simp_all add: promote_fields(1,4)) blast
      with Some show ?thesis by auto
    qed
  qed
qed

lemma createChat_keys:
  "waiting_users (snd (createChat db chatId users s)) = waiting_users s \<and>
   set (obj_keys (active_users (snd (createChat db chatId users s)))) \<subseteq>
     set (obj_keys (active_users s)) \<union> {emailOrLoginId (heap s r) | r. Some r \<in> set users}"
proof -
  obtain res s1 where run: "createChat_users db chatId users [] s = (res, s1)"
    by (cases "createChat_users db chatId users [] s")
  from createChat_users_keys [OF run]
  have "waiting_users s1 = waiting_users s"
    and "set (obj_keys (active_users s1)) \<subseteq>
      set (obj_keys (active_users s)) \<union> {emailOrLoginId (heap s r) | r. Some r \<in> set users}"
    by simp_all
  then show ?thesis
    using run by (cases res) (simp_all add: createChat_def call_store_def Let_def)
qed

lemma delActiveUser_keys:
  "waiting_users (snd (delActiveUser db r s)) = waiting_users s \<and>
   set (obj_keys (active_users (snd (delActiveUser db r s)))) \<subseteq> set (obj_keys (active_users s))"
  by (auto simp: delActiveUser_def call_store_def Let_def obj_keys_delete)

lemma closeChat_users_keys:
  "closeChat_users db chatId ms inactiveList s = (res, s') \<Longrightarrow>
     waiting_users s' = waiting_users s \<and>
     set (obj_keys (active_users s')) \<subseteq> set (obj_keys (active_users s))"
proof (induction ms arbitrary: inactiveList s)
  case Nil
  then show ?case by simp
next
  case (Cons m ms)
  consider (fault) e where "getActiveUser s (Search_string m) = Inl e"
    | (none) "getActiveUser s (Search_string m) = Inr None"
    | (found) r where "getActiveUser s (Search_string m) = Inr (Some r)"
    by (cases "getActiveUser s (Search_string m)") auto
  then show ?case
  proof cases
    case fault
    with Cons.prems show ?thesis by auto
  next
    case none
    with Cons.prems have "closeChat_users db chatId ms inactiveList s = (res, s')" by simp
    from Cons.IH [OF this] show ?thesis .
  next
    case Some: found
    define s2 where "s2 = s\<lparr>heap := (heap s)
        (r := (heap s r)\<lparr>chatIds := remove_chatId chatId (chatIds (heap s r))\<rparr>),
      store_log := store_log s @ [Chat_deleteOne chatId]\<rparr>"
    define s3 where "s3 = s2\<lparr>heap := (heap s2)(r := (heap s2 r)\<lparr>currentChatId := None\<rparr>)\<rparr>"
    have k2: "waiting_users s2 = waiting_users s" "active_users s2 = active_users s"
      by (simp_all add: s2_def)
    have k3: "waiting_users s3 = waiting_users s" "active_users s3 = active_users s"
      by (simp_all add: s3_def k2)
    note del = delActiveUser_keys [of db r s3, unfolded k3]
    consider (stop) "s' = s2 \<or> s' = snd (delActiveUser db r s3)"
      | (go) l t where "closeChat_users db chatId ms l t = (res, s')"
          "t = s2 \<or> t = snd (delActiveUser db r s3)"
      using Cons.prems Some
      by (auto simp: call_store_def Let_def s2_def [symmetric] s3_def [symmetric]
          split: if_splits sum.splits prod.splits)
    then show ?thesis
    proof cases
      case stop
      with k2 del show ?thesis by auto
    next
      case go
      from Cons.IH [OF go(1)] go(2) k2 del show ?thesis by auto
    qed
  qed
qed

lemma closeChat_keys:
  "waiting_users (snd (closeChat db chatId s)) = waiting_users s \<and>
   set (obj_keys (active_users (snd (closeChat db chatId s)))) \<subseteq> set (obj_keys (active_users s))"
proof -
  define s1 where "s1 = s\<lparr>store_log := store_log s @ [Chat_deleteOne chatId]\<rparr>"
  show ?thesis
  proof (cases "getChat s1 chatId")
    case Undefined
    then show ?thesis
      by (simp add: closeChat_def call_store_def Let_def s1_def [symmetric]) (simp add: s1_def)
  next
    case (Inherited b)
    then show ?thesis
      by (simp add: closeChat_def call_store_def Let_def s1_def [symmetric]) (simp add: s1_def)
  next
    case Some: (Own c)
    define s2 where "s2 = s1\<lparr>store_log := store_log s1 @ [Message_deleteMany (obj_keys (messages c))]\<rparr>"
    obtain res s3 where run: "closeChat_users db chatId (userIds c) [] s2 = (res, s3)"
      by (cases "closeChat_users db chatId (userIds c) [] s2")
    from closeChat_users_keys [OF run]
    have "waiting_users s3 = waiting_users s"
      "set (obj_keys (active_users s3)) \<subseteq> set (obj_keys (active_users s))"
      by (simp_all add: s2_def s1_def)
    moreover have "snd (closeChat db chatId s) = s1 \<or> snd (closeChat db chatId s) = s2 \<or>
        snd (closeChat db chatId s) = s3 \<or>
        snd (closeChat db chatId s) = s3\<lparr>chats := obj_delete chatId (chats s3)\<rparr>"
      using Some run
      by (cases res)
        (simp_all add: closeChat_def call_store_def Let_def s1_def [symmetric] s2_def [symmetric])
    ultimately show ?thesis
      by (auto simp: s1_def s2_def)
  qed
qed

lemma pick_user_keys:
  "pick_user x (ids, paired, s) = (ids', paired', s') \<Longrightarrow>
     active_users s' = active_users s \<and>
     set (obj_keys (waiting_users s')) \<subseteq> set (obj_keys (waiting_users s))"
  by (auto simp: pick_user_def Let_def delWaitingUser_def obj_keys_delete)

lemma getRandomPair_keys:
  "active_users (snd (getRandomPairFromWaitingList random s)) = active_users s \<and>
   set (obj_keys (waiting_users (snd (getRandomPairFromWaitingList random s)))) \<subseteq>
     set (obj_keys (waiting_users s))"
proof -
  obtain i1 p1 s1 where a: "pick_user (random 0) (obj_keys (waiting_users s), [], s) = (i1, p1, s1)"
    by (cases "pick_user (random 0) (obj_keys (waiting_users s), [], s)")
  obtain i2 p2 s2 where b: "pick_user (random 1) (i1, p1, s1) = (i2, p2, s2)"
    by (cases "pick_user (random 1) (i1, p1, s1)")
  have "[0..<2] = [0, Suc 0]" by (simp add: upt_rec)
  then have "snd (getRandomPairFromWaitingList random s) = s2"
    using a b by (simp add: getRandomPairFromWaitingList_def)
  with pick_user_keys [OF a] pick_user_keys [OF b] show ?thesis by auto
qed

text \<open>
  Claim C9 does not hold as stated. \<^verbatim>\<open>addToWaitingList\<close> does not look at the active
  map: after the operations of \<open>rejoin\<close>, run from the empty caches, alice is on the
  waiting list and in the active map at once.
\<close>

theorem waiting_and_active_counterexample:
  "obj_has (waiting_users (fold (perform accepting_store) rejoin empty_state)) ''alice'' \<and>
   obj_has (active_users (fold (perform accepting_store) rejoin empty_state)) ''alice''"
proof -
  have "fold (perform accepting_store) rejoin empty_state =
      snd (addToWaitingList ''alice'' None ''s3'' after_pairing)"
    by (simp add: rejoin_def after_pairing_reached)
  then show ?thesis
    by (simp add: addToWaitingList_def Let_def obj_has_set sets_prototype_def)
      (simp add: after_pairing_def obj_has_def)
qed

text \<open>
  Claim C9, amended. From a state in which no id is in both maps, every core operation
  leads to such a state again, provided \<^verbatim>\<open>addToWaitingList\<close> is not called under the id
  of an active user and \<^verbatim>\<open>createChat\<close> or \<^verbatim>\<open>addActiveUser\<close> only for users whose id is
  off the waiting list. An id can be in neither map. Only \<^verbatim>\<open>createChat\<close> and
  \<^verbatim>\<open>addActiveUser\<close> add an id to the active map: after any other operation the ids of
  the active map are among those before it.
\<close>

theorem core_operations_keep_lists_apart:
  assumes "never_both s" and "permitted op s"
  shows "never_both (perform db op s) \<and>
    (\<not> promotes op \<longrightarrow>
       set (obj_keys (active_users (perform db op s))) \<subseteq> set (obj_keys (active_users s)))"
proof (cases op)
  case (AddToWaitingList lid em socket)
  with assms show ?thesis
    by (auto simp: never_both_def addToWaitingList_def Let_def obj_keys_set obj_has_keys
        split: if_splits)
next
  case (GetRandomPairFromWaitingList random)
  with assms getRandomPair_keys [of random s] show ?thesis
    by (auto simp: never_both_def)
next
  case (CreateChat chatId users)
  from assms(2) CreateChat
  have "emailOrLoginId (heap s r) \<notin> set (obj_keys (waiting_users s))" if "Some r \<in> set users" for r
    using that by (auto simp: list_all_iff obj_has_keys)
  with assms(1) CreateChat createChat_keys [of db chatId users s] show ?thesis
    by (auto simp: never_both_def)
next
  case (AddActiveUser r)
  with assms show ?thesis
    by (auto simp: never_both_def addActiveUser_def obj_keys_set obj_has_keys split: if_splits)
next
  case (CloseChat chatId)
  with assms closeChat_keys [of db chatId s] show ?thesis
    by (auto simp: never_both_def)
next
  case (DelActiveUser r)
  with assms delActiveUser_keys [of db r s] show ?thesis
    by (auto simp: never_both_def)
next
  case (DelWaitingUser k)
  with assms show ?thesis
    by (auto simp: never_both_def delWaitingUser_def obj_keys_delete)
qed

theorem core_operations_keep_lists_apart_witness:
  "never_both chatting \<and> permitted (AddToWaitingList ''carol'' None ''s4'') chatting \<and>
   never_both (perform accepting_store (AddToWaitingList ''carol'' None ''s4'') chatting) \<and>
   set (obj_keys (active_users (perform accepting_store
     (AddToWaitingList ''carol'' None ''s4'') chatting))) \<subseteq> set (obj_keys (active_users chatting)) \<and>
   never_both (two_waiting\<lparr>waiting_users := []\<rparr>) \<and>
   permitted (CreateChat ''c1'' [Some 0, Some 1]) (two_waiting\<lparr>waiting_users := []\<rparr>) \<and>
   never_both (perform accepting_store (CreateChat ''c1'' [Some 0, Some 1])
     (two_waiting\<lparr>waiting_users := []\<rparr>))"
proof -
  have a: "never_both chatting"
    by (simp add: never_both_def chatting_def obj_keys_def)
  have b: "permitted (AddToWaitingList ''carol'' None ''s4'') chatting"
    by (simp add: obj_has_def chatting_def)
  have c: "never_both (two_waiting\<lparr>waiting_users := []\<rparr>)"
    by (simp add: never_both_def obj_keys_def)
  have d: "permitted (CreateChat ''c1'' [Some 0, Some 1]) (two_waiting\<lparr>waiting_users := []\<rparr>)"
    by (simp add: obj_has_def)
  from core_operations_keep_lists_apart [OF a b, of accepting_store]
    core_operations_keep_lists_apart [OF c d, of accepting_store] a b c d
  show ?thesis by simp
qed

section \<open>Bootstrap with an unresolved sender\<close>

text \<open>
  Claim C8 against the code. The store holds chats \<open>c1\<close>, \<open>c0\<close>, \<open>c2\<close> and two active
  users; the one message of \<open>c0\<close> has no sender. \<^verbatim>\<open>init\<close> caches \<open>c1\<close> and then
  returns at the orphaned message: \<open>c0\<close> and \<open>c2\<close> are never cached and the active users
  are never loaded. Without \<open>c0\<close> in the store both chats and both users are loaded.
\<close>

theorem init_returns_at_unresolved_sender:
  "map fst (chats (init (stored [chat_doc_of ''c1'' [hello_doc], chat_doc_of ''c0'' [orphan_doc],
       chat_doc_of ''c2'' []]) empty_state)) = [''c1''] \<and>
   active_users (init (stored [chat_doc_of ''c1'' [hello_doc], chat_doc_of ''c0'' [orphan_doc],
       chat_doc_of ''c2'' []]) empty_state) = [] \<and>
   map fst (chats (init (stored [chat_doc_of ''c1'' [hello_doc], chat_doc_of ''c2'' []])
       empty_state)) = [''c1'', ''c2''] \<and>
   active_users (init (stored [chat_doc_of ''c1'' [hello_doc], chat_doc_of ''c2'' []])
       empty_state) = [(''alice'', 0), (''bob@x.org'', 1)]"
  by (simp add: init_def stored_def chat_doc_of_def hello_doc_def orphan_doc_def empty_state_def
      alice_doc_def bob_doc_def ud_emailOrLoginId_def obj_set_def obj_define_def
      sets_prototype_def obj_has_def is_array_index_def is_digit_def)

end
